theory Spec2Isabelle
  imports Complex_Main "HOL-Library.Product_Lexorder"
begin

section \<open>Data model\<close>

text \<open>
  The views of \<^verbatim>\<open>listings/views.py\<close> work on three tables through the ORM. The
  model classes themselves (\<^verbatim>\<open>models.py\<close>) and the serializers
  (\<^verbatim>\<open>serializers.py\<close>) are not among the sources; the fields below are the ones the
  views read and write.

  A calendar date is the triple (year, month, day); \<^verbatim>\<open>datetime.date\<close> compares
  these lexicographically, which is the order of \<open>Product_Lexorder\<close>.
\<close>

type_synonym date = "nat \<times> nat \<times> nat"

text \<open>
  Modelled from the spec: the declaration of the \<^verbatim>\<open>status\<close> field is in
  \<^verbatim>\<open>models.py\<close>, which is missing. The spec (section 3) gives its values as
  pending, confirmed, cancelled, completed; the views compare the field with exactly
  these four string literals, which \<open>status_value\<close> returns.
\<close>

datatype booking_status = Pending | Confirmed | Cancelled | Completed

fun status_value :: "booking_status \<Rightarrow> string" where
  "status_value Pending = ''pending''"
| "status_value Confirmed = ''confirmed''"
| "status_value Cancelled = ''cancelled''"
| "status_value Completed = ''completed''"

record listing =
  listing_id :: nat
  title :: string
  price_per_night :: rat
  is_active :: bool

record booking =
  booking_id :: nat
  booking_listing_id :: nat
  booking_user :: nat
  check_in_date :: date
  check_out_date :: date
  status :: booking_status

text \<open>
  The database: the two tables in row order, and the next value of the bookings'
  auto-increment primary key.
\<close>

record db =
  listings :: "listing list"
  bookings :: "booking list"
  next_booking_id :: nat

text \<open>
  What a view raises instead of returning a response: the ORM's
  \<^verbatim>\<open>ValidationError\<close> on a value it cannot convert, \<^verbatim>\<open>Http404\<close> of
  \<^verbatim>\<open>get_object\<close>, the rejection by \<^verbatim>\<open>IsAuthenticated\<close>, and the \<open>Conflict\<close>
  of the spec's booking creation.
\<close>

datatype error = ValidationError | NotFound | NotAuthenticated | Conflict

text \<open>
  The payload of a \<^verbatim>\<open>Response\<close> and its HTTP status. Serialization is not modelled:
  a payload holds the rows themselves.
\<close>

datatype body =
    ErrorBody string
  | ListingsBody "listing list"
  | BookingBody booking
  | MessageBody string booking

datatype response = Response body nat

text \<open>
  \<^verbatim>\<open>request.query_params\<close> is a dictionary from parameter names to strings;
  \<^verbatim>\<open>.get(name)\<close> is \<^verbatim>\<open>None\<close> for a missing name.
\<close>

type_synonym query_params = "string \<rightharpoonup> string"

text \<open>Python's truth value of \<^verbatim>\<open>query_params.get(name)\<close>: neither \<^verbatim>\<open>None\<close> nor the empty string.\<close>

definition truthy :: "string option \<Rightarrow> bool" where
  "truthy v = (case v of None \<Rightarrow> False | Some s \<Rightarrow> s \<noteq> [])"

section \<open>ListingViewSet\<close>

text \<open>
  The ORM converts the string of a query parameter to the type of the column it is
  compared with, and raises \<^verbatim>\<open>ValidationError\<close> when it cannot. The two conversions
  belong to the framework; they are parameters of the model: \<open>to_decimal\<close> for
  \<^verbatim>\<open>price_per_night\<close> and \<open>to_date\<close> for the two date columns, \<open>None\<close> standing for
  the raise.
\<close>

text \<open>\<^verbatim>\<open>queryset = Listing.objects.filter(is_active=True)\<close>\<close>

definition listing_queryset :: "db \<Rightarrow> listing list" where
  "listing_queryset d = filter is_active (listings d)"

text \<open>
  \<^verbatim>\<open>Booking.objects.filter(Q(check_in_date__lt=check_out) & Q(check_out_date__gt=check_in),
  status__in=['confirmed', 'pending']).values_list('listing_id', flat=True)\<close>
\<close>

definition overlapping_bookings :: "db \<Rightarrow> date \<Rightarrow> date \<Rightarrow> nat list" where
  "overlapping_bookings d check_in check_out =
     map booking_listing_id
       (filter (\<lambda>b. (check_in_date b < check_out \<and> check_out_date b > check_in)
                    \<and> status b \<in> set [Confirmed, Pending])
          (bookings d))"

text \<open>\<^verbatim>\<open>if min_price is not None: queryset = queryset.filter(price_per_night__gte=min_price)\<close>\<close>

definition filter_min_price ::
  "(string \<Rightarrow> rat option) \<Rightarrow> string option \<Rightarrow> listing list \<Rightarrow> error + listing list" where
  "filter_min_price to_decimal min_price queryset =
     (case min_price of
        None \<Rightarrow> Inr queryset
      | Some s \<Rightarrow>
          (case to_decimal s of
             None \<Rightarrow> Inl ValidationError
           | Some p \<Rightarrow> Inr (filter (\<lambda>l. price_per_night l \<ge> p) queryset)))"

text \<open>\<^verbatim>\<open>if max_price is not None: queryset = queryset.filter(price_per_night__lte=max_price)\<close>\<close>

definition filter_max_price ::
  "(string \<Rightarrow> rat option) \<Rightarrow> string option \<Rightarrow> listing list \<Rightarrow> error + listing list" where
  "filter_max_price to_decimal max_price queryset =
     (case max_price of
        None \<Rightarrow> Inr queryset
      | Some s \<Rightarrow>
          (case to_decimal s of
             None \<Rightarrow> Inl ValidationError
           | Some p \<Rightarrow> Inr (filter (\<lambda>l. price_per_night l \<le> p) queryset)))"

text \<open>
  \<^verbatim>\<open>if check_in and check_out: ... queryset = queryset.exclude(id__in=overlapping_bookings)\<close>
\<close>

definition exclude_overlapping ::
  "(string \<Rightarrow> date option) \<Rightarrow> db \<Rightarrow> string option \<Rightarrow> string option \<Rightarrow> listing list
     \<Rightarrow> error + listing list" where
  "exclude_overlapping to_date d check_in check_out queryset =
     (if truthy check_in \<and> truthy check_out then
        (case (check_in, check_out) of
           (Some ci, Some co) \<Rightarrow>
             (case (to_date co, to_date ci) of
                (Some check_out', Some check_in') \<Rightarrow>
                  Inr (filter (\<lambda>l. listing_id l \<notin> set (overlapping_bookings d check_in' check_out'))
                         queryset)
              | _ \<Rightarrow> Inl ValidationError)
         | _ \<Rightarrow> Inr queryset)
      else Inr queryset)"

text \<open>\<^verbatim>\<open>ListingViewSet.get_queryset\<close>: the three steps in the order of the source.\<close>

definition listing_get_queryset ::
  "(string \<Rightarrow> rat option) \<Rightarrow> (string \<Rightarrow> date option) \<Rightarrow> db \<Rightarrow> query_params
     \<Rightarrow> error + listing list" where
  "listing_get_queryset to_decimal to_date d query =
     (case filter_min_price to_decimal (query ''min_price'') (listing_queryset d) of
        Inl e \<Rightarrow> Inl e
      | Inr q1 \<Rightarrow>
          (case filter_max_price to_decimal (query ''max_price'') q1 of
             Inl e \<Rightarrow> Inl e
           | Inr q2 \<Rightarrow>
               exclude_overlapping to_date d (query ''check_in_date'') (query ''check_out_date'') q2))"

text \<open>
  \<^verbatim>\<open>ListingViewSet.available\<close>: 400 unless both dates are given, else the serialized
  \<^verbatim>\<open>get_queryset()\<close>.
\<close>

definition available ::
  "(string \<Rightarrow> rat option) \<Rightarrow> (string \<Rightarrow> date option) \<Rightarrow> db \<Rightarrow> query_params
     \<Rightarrow> error + response" where
  "available to_decimal to_date d query =
     (if \<not> truthy (query ''check_in_date'') \<or> \<not> truthy (query ''check_out_date'') then
        Inr (Response (ErrorBody ''Both check_in_date and check_out_date are required'') 400)
      else
        (case listing_get_queryset to_decimal to_date d query of
           Inl e \<Rightarrow> Inl e
         | Inr queryset \<Rightarrow> Inr (Response (ListingsBody queryset) 200)))"

section \<open>BookingViewSet\<close>

text \<open>
  \<^verbatim>\<open>request.user\<close> is \<open>Some u\<close> for an authenticated user and \<open>None\<close> for an anonymous
  one; \<^verbatim>\<open>permission_classes = [permissions.IsAuthenticated]\<close> rejects the latter
  before any action of this view set runs.
\<close>

text \<open>\<^verbatim>\<open>return Booking.objects.filter(user=self.request.user)\<close>\<close>

definition booking_get_queryset :: "db \<Rightarrow> nat \<Rightarrow> booking list" where
  "booking_get_queryset d u = filter (\<lambda>b. booking_user b = u) (bookings d)"

subsection \<open>The filter backend\<close>

text \<open>
  \<^verbatim>\<open>filter_backends = [DjangoFilterBackend, filters.OrderingFilter]\<close> with
  \<^verbatim>\<open>filterset_fields = ['status', 'listing']\<close>: the framework's \<^verbatim>\<open>filter_queryset\<close>
  narrows a queryset by the request's \<^verbatim>\<open>status\<close> and \<^verbatim>\<open>listing\<close> parameters, on the
  list route and, through \<^verbatim>\<open>get_object\<close>, on every detail route. A parameter that is
  missing or empty filters nothing; a value that the field's form refuses makes the
  request fail with 400; any other value keeps the rows that have it. The ordering
  backend does not change which rows there are.
\<close>

datatype 'a cleaned = Unfiltered | Invalid | Exact 'a

text \<open>
  Modelled from the spec: the choices of the \<^verbatim>\<open>status\<close> field are declared in
  \<^verbatim>\<open>models.py\<close>, which is missing; section 3 of the spec gives the four values. A
  \<^verbatim>\<open>status\<close> parameter is valid when it is one of them.
\<close>

definition clean_status :: "string option \<Rightarrow> booking_status cleaned" where
  "clean_status v =
     (case v of
        None \<Rightarrow> Unfiltered
      | Some s \<Rightarrow>
          if s = [] then Unfiltered
          else if s = status_value Pending then Exact Pending
          else if s = status_value Confirmed then Exact Confirmed
          else if s = status_value Cancelled then Exact Cancelled
          else if s = status_value Completed then Exact Completed
          else Invalid)"

text \<open>
  A \<^verbatim>\<open>listing\<close> parameter is valid when it is the primary key of a listing. The
  conversion of the string to a primary key is the framework's, the parameter \<open>to_pk\<close>.
\<close>

definition clean_listing :: "(string \<Rightarrow> nat option) \<Rightarrow> db \<Rightarrow> string option \<Rightarrow> nat cleaned" where
  "clean_listing to_pk d v =
     (case v of
        None \<Rightarrow> Unfiltered
      | Some s \<Rightarrow>
          if s = [] then Unfiltered
          else
            (case to_pk s of
               None \<Rightarrow> Invalid
             | Some k \<Rightarrow> if list_ex (\<lambda>l. listing_id l = k) (listings d) then Exact k else Invalid))"

fun admits :: "'a cleaned \<Rightarrow> 'a \<Rightarrow> bool" where
  "admits Unfiltered x = True"
| "admits (Exact v) x = (x = v)"
| "admits Invalid x = False"

definition filter_queryset ::
  "(string \<Rightarrow> nat option) \<Rightarrow> db \<Rightarrow> query_params \<Rightarrow> booking list \<Rightarrow> error + booking list" where
  "filter_queryset to_pk d query queryset =
     (let s = clean_status (query ''status'');
          l = clean_listing to_pk d (query ''listing'')
      in if s = Invalid \<or> l = Invalid then Inl ValidationError
         else Inr (filter (\<lambda>b. admits s (status b) \<and> admits l (booking_listing_id b)) queryset))"

subsection \<open>The actions\<close>

text \<open>
  \<^verbatim>\<open>self.get_object()\<close>: the row with primary key \<open>pk\<close> of
  \<^verbatim>\<open>self.filter_queryset(self.get_queryset())\<close>, or \<^verbatim>\<open>Http404\<close>.
\<close>

definition get_object ::
  "(string \<Rightarrow> nat option) \<Rightarrow> db \<Rightarrow> nat \<Rightarrow> query_params \<Rightarrow> nat \<Rightarrow> error + booking" where
  "get_object to_pk d u query pk =
     (case filter_queryset to_pk d query (booking_get_queryset d u) of
        Inl e \<Rightarrow> Inl e
      | Inr queryset \<Rightarrow>
          (case filter (\<lambda>b. booking_id b = pk) queryset of
             [] \<Rightarrow> Inl NotFound
           | b # _ \<Rightarrow> Inr b))"

text \<open>\<^verbatim>\<open>booking.save()\<close>: an UPDATE of every column of the row whose primary key is the object's.\<close>

definition save :: "db \<Rightarrow> booking \<Rightarrow> db" where
  "save d b = d\<lparr>bookings := map (\<lambda>r. if booking_id r = booking_id b then b else r) (bookings d)\<rparr>"

text \<open>\<^verbatim>\<open>BookingViewSet.cancel\<close>\<close>

definition cancel ::
  "(string \<Rightarrow> nat option) \<Rightarrow> db \<Rightarrow> nat option \<Rightarrow> query_params \<Rightarrow> nat
     \<Rightarrow> (error + response) \<times> db" where
  "cancel to_pk d user query pk =
     (case user of
        None \<Rightarrow> (Inl NotAuthenticated, d)
      | Some u \<Rightarrow>
          (case get_object to_pk d u query pk of
             Inl e \<Rightarrow> (Inl e, d)
           | Inr b \<Rightarrow>
               if status b \<in> set [Cancelled, Completed] then
                 (Inr (Response
                    (ErrorBody (''Cannot cancel a booking that is already '' @ status_value (status b)))
                    400), d)
               else
                 (let b' = b\<lparr>status := Cancelled\<rparr> in
                  (Inr (Response (MessageBody ''Booking cancelled successfully'' b') 200),
                   save d b'))))"

text \<open>\<^verbatim>\<open>BookingViewSet.confirm\<close>\<close>

definition confirm ::
  "(string \<Rightarrow> nat option) \<Rightarrow> db \<Rightarrow> nat option \<Rightarrow> query_params \<Rightarrow> nat
     \<Rightarrow> (error + response) \<times> db" where
  "confirm to_pk d user query pk =
     (case user of
        None \<Rightarrow> (Inl NotAuthenticated, d)
      | Some u \<Rightarrow>
          (case get_object to_pk d u query pk of
             Inl e \<Rightarrow> (Inl e, d)
           | Inr b \<Rightarrow>
               if status b \<noteq> Pending then
                 (Inr (Response
                    (ErrorBody (''Cannot confirm a booking that is '' @ status_value (status b)))
                    400), d)
               else
                 (let b' = b\<lparr>status := Confirmed\<rparr> in
                  (Inr (Response (MessageBody ''Booking confirmed successfully'' b') 200),
                   save d b'))))"

text \<open>
  The list and retrieve actions are the framework's: retrieve serializes
  \<^verbatim>\<open>get_object()\<close>, and list hands \<^verbatim>\<open>filter_queryset(get_queryset())\<close> to the ordering
  backend, the paginator and the serializer, which together are the parameter \<open>render\<close>.
\<close>

definition booking_retrieve ::
  "(string \<Rightarrow> nat option) \<Rightarrow> db \<Rightarrow> nat option \<Rightarrow> query_params \<Rightarrow> nat \<Rightarrow> error + response" where
  "booking_retrieve to_pk d user query pk =
     (case user of
        None \<Rightarrow> Inl NotAuthenticated
      | Some u \<Rightarrow>
          (case get_object to_pk d u query pk of
             Inl e \<Rightarrow> Inl e
           | Inr b \<Rightarrow> Inr (Response (BookingBody b) 200)))"

definition booking_list ::
  "(string \<Rightarrow> nat option) \<Rightarrow> (booking list \<Rightarrow> response) \<Rightarrow> db \<Rightarrow> nat option \<Rightarrow> query_params
     \<Rightarrow> error + response" where
  "booking_list to_pk render d user query =
     (case user of
        None \<Rightarrow> Inl NotAuthenticated
      | Some u \<Rightarrow>
          (case filter_queryset to_pk d query (booking_get_queryset d u) of
             Inl e \<Rightarrow> Inl e
           | Inr queryset \<Rightarrow> Inr (render queryset)))"

text \<open>
  \<^verbatim>\<open>BookingViewSet.perform_create\<close>: \<^verbatim>\<open>serializer.save(user=self.request.user)\<close>
  inserts a row with the validated listing and dates and the requesting user. The
  initial status is the model's default, which the spec gives as pending.
\<close>

definition perform_create :: "db \<Rightarrow> nat \<Rightarrow> nat \<Rightarrow> date \<Rightarrow> date \<Rightarrow> booking \<times> db" where
  "perform_create d u lid check_in check_out =
     (let b = \<lparr>booking_id = next_booking_id d, booking_listing_id = lid, booking_user = u,
                check_in_date = check_in, check_out_date = check_out, status = Pending\<rparr>
      in (b, d\<lparr>bookings := bookings d @ [b], next_booking_id := Suc (next_booking_id d)\<rparr>))"

section \<open>Booking creation, from the spec\<close>

text \<open>
  Modelled from the spec: the validation of a new booking is in
  \<^verbatim>\<open>BookingCreateSerializer\<close> (\<^verbatim>\<open>serializers.py\<close>), which is missing. Section 4.1:
  \<open>isAvailable\<close> is the single-listing overlap test, a booking blocking the interval
  when its status is pending or confirmed and
  \<^verbatim>\<open>booking.checkIn < checkOut AND booking.checkOut > checkIn\<close>.
\<close>

definition isAvailable :: "db \<Rightarrow> nat \<Rightarrow> date \<Rightarrow> date \<Rightarrow> bool" where
  "isAvailable d lid check_in check_out =
     (\<not> list_ex (\<lambda>b. booking_listing_id b = lid
                     \<and> (status b = Pending \<or> status b = Confirmed)
                     \<and> check_in_date b < check_out \<and> check_out_date b > check_in)
          (bookings d))"

text \<open>
  Modelled from the spec: \<open>createBooking\<close> of section 4.2, the missing serializer's
  validation followed by \<open>perform_create\<close>. Its preconditions are \<^verbatim>\<open>checkIn < checkOut\<close>
  (else \<open>ValidationError\<close>, section 7) and an active listing (else \<open>NotFound\<close>); it
  re-validates with \<open>isAvailable\<close> on the current bookings and fails with \<open>Conflict\<close> on
  an overlap. This is the operation run from its first query to its insertion with no
  other request in between.
\<close>

definition createBooking ::
  "db \<Rightarrow> nat option \<Rightarrow> nat \<Rightarrow> date \<Rightarrow> date \<Rightarrow> (error + booking) \<times> db" where
  "createBooking d actor lid check_in check_out =
     (case actor of
        None \<Rightarrow> (Inl NotAuthenticated, d)
      | Some u \<Rightarrow>
          if \<not> check_in < check_out then (Inl ValidationError, d)
          else if \<not> list_ex (\<lambda>l. listing_id l = lid \<and> is_active l) (listings d)
            then (Inl NotFound, d)
          else if \<not> isAvailable d lid check_in check_out then (Inl Conflict, d)
          else (let (b, d') = perform_create d u lid check_in check_out in (Inr b, d')))"

section \<open>Requests that run at the same time\<close>

text \<open>
  No view of \<^verbatim>\<open>views.py\<close> opens a transaction or takes a lock. Each of the three
  operations first reads the database and later writes it, in separate queries:
  \<^verbatim>\<open>confirm\<close> and \<^verbatim>\<open>cancel\<close> read with \<^verbatim>\<open>get_object()\<close> and write the object they
  loaded with \<^verbatim>\<open>booking.save()\<close>; a creation validates and then inserts with
  \<^verbatim>\<open>perform_create\<close>. Between the read and the write of one request, other requests
  can read and write.

  The read part of each operation returns \<open>None\<close> when the view answers without
  writing, and else the write that the view goes on to make.
\<close>

datatype pending_write =
    PendingInsert nat nat date date
  | PendingSave booking

text \<open>
  Modelled from the spec: the checks of \<open>createBooking\<close> without its insertion (the
  missing serializer's validation).
\<close>

definition create_read :: "db \<Rightarrow> nat option \<Rightarrow> nat \<Rightarrow> date \<Rightarrow> date \<Rightarrow> pending_write option" where
  "create_read d actor lid check_in check_out =
     (case actor of
        None \<Rightarrow> None
      | Some u \<Rightarrow>
          if \<not> check_in < check_out then None
          else if \<not> list_ex (\<lambda>l. listing_id l = lid \<and> is_active l) (listings d) then None
          else if \<not> isAvailable d lid check_in check_out then None
          else Some (PendingInsert u lid check_in check_out))"

text \<open>\<^verbatim>\<open>confirm\<close> up to, and without, \<^verbatim>\<open>booking.save()\<close>.\<close>

definition confirm_read ::
  "(string \<Rightarrow> nat option) \<Rightarrow> db \<Rightarrow> nat option \<Rightarrow> query_params \<Rightarrow> nat \<Rightarrow> pending_write option" where
  "confirm_read to_pk d user query pk =
     (case user of
        None \<Rightarrow> None
      | Some u \<Rightarrow>
          (case get_object to_pk d u query pk of
             Inl e \<Rightarrow> None
           | Inr b \<Rightarrow>
               if status b \<noteq> Pending then None
               else Some (PendingSave (b\<lparr>status := Confirmed\<rparr>))))"

text \<open>\<^verbatim>\<open>cancel\<close> up to, and without, \<^verbatim>\<open>booking.save()\<close>.\<close>

definition cancel_read ::
  "(string \<Rightarrow> nat option) \<Rightarrow> db \<Rightarrow> nat option \<Rightarrow> query_params \<Rightarrow> nat \<Rightarrow> pending_write option" where
  "cancel_read to_pk d user query pk =
     (case user of
        None \<Rightarrow> None
      | Some u \<Rightarrow>
          (case get_object to_pk d u query pk of
             Inl e \<Rightarrow> None
           | Inr b \<Rightarrow>
               if status b \<in> set [Cancelled, Completed] then None
               else Some (PendingSave (b\<lparr>status := Cancelled\<rparr>))))"

text \<open>A request to one of the three core operations, with the requesting user.\<close>

datatype request =
    Create "nat option" nat date date
  | ConfirmReq "nat option" query_params nat
  | CancelReq "nat option" query_params nat

fun begin_request :: "(string \<Rightarrow> nat option) \<Rightarrow> db \<Rightarrow> request \<Rightarrow> pending_write option" where
  "begin_request to_pk d (Create actor lid check_in check_out) =
     create_read d actor lid check_in check_out"
| "begin_request to_pk d (ConfirmReq user query pk) = confirm_read to_pk d user query pk"
| "begin_request to_pk d (CancelReq user query pk) = cancel_read to_pk d user query pk"

text \<open>The write: \<^verbatim>\<open>perform_create\<close> for a creation, \<^verbatim>\<open>booking.save()\<close> for the other two.\<close>

fun finish_request :: "db \<Rightarrow> pending_write \<Rightarrow> db" where
  "finish_request d (PendingInsert u lid check_in check_out) =
     snd (perform_create d u lid check_in check_out)"
| "finish_request d (PendingSave b) = save d b"

text \<open>
  A schedule is a list of events: client \<open>c\<close> sends a request, whose read part runs, or
  the write of the request that client \<open>c\<close> has in progress runs. The state is the
  database and the write each client has in progress.
\<close>

datatype event = Begin nat request | Finish nat

fun exec_event ::
  "(string \<Rightarrow> nat option) \<Rightarrow> db \<times> (nat \<Rightarrow> pending_write option) \<Rightarrow> event
     \<Rightarrow> db \<times> (nat \<Rightarrow> pending_write option)" where
  "exec_event to_pk (d, p) (Begin c r) = (d, p(c := begin_request to_pk d r))"
| "exec_event to_pk (d, p) (Finish c) =
     (case p c of
        None \<Rightarrow> (d, p)
      | Some w \<Rightarrow> (finish_request d w, p(c := None)))"

definition interleaved :: "(string \<Rightarrow> nat option) \<Rightarrow> db \<Rightarrow> event list \<Rightarrow> db" where
  "interleaved to_pk d es = fst (foldl (exec_event to_pk) (d, \<lambda>c. None) es)"

subsection \<open>One request after another\<close>

text \<open>
  A request that runs alone: its read, then at once its write. A serial history runs
  its requests in this way, each to its end before the next begins.
\<close>

definition step :: "(string \<Rightarrow> nat option) \<Rightarrow> db \<Rightarrow> request \<Rightarrow> db" where
  "step to_pk d r =
     (case begin_request to_pk d r of
        None \<Rightarrow> d
      | Some w \<Rightarrow> finish_request d w)"

definition run :: "(string \<Rightarrow> nat option) \<Rightarrow> db \<Rightarrow> request list \<Rightarrow> db" where
  "run to_pk d rs = foldl (step to_pk) d rs"

section \<open>The booking invariant\<close>

text \<open>A booking holds its interval while it is pending or confirmed.\<close>

definition blocking :: "booking \<Rightarrow> bool" where
  "blocking b = (status b = Pending \<or> status b = Confirmed)"

text \<open>Two half-open intervals \<open>[check_in_date, check_out_date)\<close> share a night.\<close>

definition overlaps :: "booking \<Rightarrow> booking \<Rightarrow> bool" where
  "overlaps a b = (check_in_date a < check_out_date b \<and> check_in_date b < check_out_date a)"

definition double_booked :: "booking \<Rightarrow> booking \<Rightarrow> bool" where
  "double_booked a b =
     (booking_listing_id a = booking_listing_id b \<and> blocking a \<and> blocking b \<and> overlaps a b)"

text \<open>No two rows of the table are a double booking.\<close>

fun no_double_booking :: "booking list \<Rightarrow> bool" where
  "no_double_booking [] = True"
| "no_double_booking (b # bs) = (list_all (\<lambda>c. \<not> double_booked b c) bs \<and> no_double_booking bs)"

text \<open>
  The primary key of the bookings table: no two rows share an id, and the
  auto-increment counter is beyond every id in use.
\<close>

definition pk_ok :: "db \<Rightarrow> bool" where
  "pk_ok d = (distinct (map booking_id (bookings d))
              \<and> list_all (\<lambda>b. booking_id b < next_booking_id d) (bookings d))"

definition empty_db :: "listing list \<Rightarrow> db" where
  "empty_db ls = \<lparr>listings = ls, bookings = [], next_booking_id = 1\<rparr>"

section \<open>A small database for concrete checks\<close>

text \<open>
  Two active listings and an inactive one; a pending booking of the first listing and a
  cancelled booking of the second, both for the nights of 1 to 4 June 2024. The
  conversions know the few strings the checks below use.
\<close>

definition demo_dates :: "string \<Rightarrow> date option" where
  "demo_dates s =
     (if s = ''2024-06-01'' then Some (2024, 6, 1)
      else if s = ''2024-06-03'' then Some (2024, 6, 3)
      else if s = ''2024-06-05'' then Some (2024, 6, 5)
      else if s = ''2024-06-07'' then Some (2024, 6, 7)
      else if s = ''2024-06-10'' then Some (2024, 6, 10)
      else None)"

definition demo_decimal :: "string \<Rightarrow> rat option" where
  "demo_decimal s =
     (if s = ''50'' then Some 50 else if s = ''100'' then Some 100 else None)"

definition demo_pk :: "string \<Rightarrow> nat option" where
  "demo_pk s =
     (if s = ''1'' then Some 1 else if s = ''2'' then Some 2 else if s = ''3'' then Some 3
      else if s = ''4'' then Some 4 else None)"

definition beach_house :: listing where
  "beach_house = \<lparr>listing_id = 1, title = ''Beach house'', price_per_night = 120, is_active = True\<rparr>"

definition city_flat :: listing where
  "city_flat = \<lparr>listing_id = 2, title = ''City flat'', price_per_night = 80, is_active = True\<rparr>"

definition old_barn :: listing where
  "old_barn = \<lparr>listing_id = 3, title = ''Old barn'', price_per_night = 40, is_active = False\<rparr>"

definition first_booking :: booking where
  "first_booking = \<lparr>booking_id = 1, booking_listing_id = 1, booking_user = 7,
     check_in_date = (2024, 6, 1), check_out_date = (2024, 6, 5), status = Pending\<rparr>"

definition second_booking :: booking where
  "second_booking = \<lparr>booking_id = 2, booking_listing_id = 2, booking_user = 8,
     check_in_date = (2024, 6, 1), check_out_date = (2024, 6, 5), status = Cancelled\<rparr>"

definition demo_db :: db where
  "demo_db = \<lparr>listings = [beach_house, city_flat, old_barn],
               bookings = [first_booking, second_booking], next_booking_id = 3\<rparr>"

definition empty_demo :: db where
  "empty_demo = empty_db [beach_house, city_flat, old_barn]"

definition demo_history :: "request list" where
  "demo_history =
     [Create (Some 7) 1 (2024, 6, 1) (2024, 6, 5),
      Create (Some 8) 1 (2024, 6, 3) (2024, 6, 7),
      Create (Some 8) 1 (2024, 6, 5) (2024, 6, 10),
      ConfirmReq (Some 7) Map.empty 1,
      CancelReq (Some 8) [''status'' \<mapsto> ''pending''] 2,
      Create (Some 9) 1 (2024, 6, 7) (2024, 6, 10)]"

text \<open>Two clients ask for overlapping stays in the same listing at the same time.\<close>

definition racing_creations :: "event list" where
  "racing_creations =
     [Begin 1 (Create (Some 7) 1 (2024, 6, 1) (2024, 6, 5)),
      Begin 2 (Create (Some 8) 1 (2024, 6, 3) (2024, 6, 7)),
      Finish 1,
      Finish 2]"

text \<open>
  A confirm loads a pending booking; before it saves, the booking is cancelled and
  another client books the freed nights.
\<close>

definition stale_confirm :: "event list" where
  "stale_confirm =
     [Begin 1 (Create (Some 7) 1 (2024, 6, 1) (2024, 6, 5)), Finish 1,
      Begin 1 (ConfirmReq (Some 7) Map.empty 1),
      Begin 2 (CancelReq (Some 7) Map.empty 1), Finish 2,
      Begin 3 (Create (Some 8) 1 (2024, 6, 3) (2024, 6, 7)), Finish 3,
      Finish 1]"

definition other_db :: db where
  "other_db = demo_db\<lparr>bookings := [first_booking,
     second_booking\<lparr>status := Confirmed, check_out_date := (2024, 6, 10)\<rparr>]\<rparr>"

lemmas demo_defs = demo_dates_def demo_decimal_def demo_pk_def beach_house_def city_flat_def
  old_barn_def first_booking_def second_booking_def demo_db_def

lemmas listing_view_defs = listing_get_queryset_def filter_min_price_def filter_max_price_def
  exclude_overlapping_def truthy_def overlapping_bookings_def listing_queryset_def

lemmas filter_defs = filter_queryset_def clean_status_def clean_listing_def

lemmas booking_view_defs = get_object_def booking_get_queryset_def save_def cancel_def confirm_def
  booking_retrieve_def booking_list_def filter_defs

section \<open>Availability filtering\<close>

lemma filter_min_price_None: "filter_min_price td None qs = Inr qs"
  by (simp add: filter_min_price_def)

lemma filter_max_price_None: "filter_max_price td None qs = Inr qs"
  by (simp add: filter_max_price_def)

lemma exclude_overlapping_absent:
  "ci = None \<or> co = None \<Longrightarrow> exclude_overlapping tdt d ci co qs = Inr qs"
  by (auto simp: exclude_overlapping_def truthy_def)

lemma exclude_overlapping_dates:
  "ci \<noteq> [] \<Longrightarrow> co \<noteq> [] \<Longrightarrow> tdt ci = Some check_in \<Longrightarrow> tdt co = Some check_out \<Longrightarrow>
   exclude_overlapping tdt d (Some ci) (Some co) qs =
     Inr (filter (\<lambda>l. listing_id l \<notin> set (overlapping_bookings d check_in check_out)) qs)"
  by (simp add: exclude_overlapping_def truthy_def)

lemma in_overlapping_bookings:
  "lid \<in> set (overlapping_bookings d check_in check_out) \<longleftrightarrow>
   (\<exists>b \<in> set (bookings d). booking_listing_id b = lid \<and> (status b = Pending \<or> status b = Confirmed)
        \<and> check_in_date b < check_out \<and> check_out_date b > check_in)"
  by (auto simp: overlapping_bookings_def)


lemma get_queryset_with_dates:
  assumes "query ''min_price'' = None" and "query ''max_price'' = None"
    and "query ''check_in_date'' = Some ci" and "query ''check_out_date'' = Some co"
    and "ci \<noteq> []" and "co \<noteq> []"
    and "to_date ci = Some check_in" and "to_date co = Some check_out"
  shows "listing_get_queryset to_decimal to_date d query =
           Inr (filter (\<lambda>l. \<not> (\<exists>b \<in> set (bookings d).
                                  booking_listing_id b = listing_id l
                                  \<and> (status b = Pending \<or> status b = Confirmed)
                                  \<and> check_in_date b < check_out \<and> check_out_date b > check_in))
                  (listing_queryset d))"
  using assms
  by (simp add: listing_get_queryset_def filter_min_price_None filter_max_price_None
      exclude_overlapping_dates in_overlapping_bookings)

text \<open>
  C2. With both dates given (and no price bounds), \<open>get_queryset\<close> returns the active
  listings without those that have a pending or confirmed booking with
  \<^verbatim>\<open>check_in_date < checkOut\<close> and \<^verbatim>\<open>check_out_date > checkIn\<close>, in the order of the
  catalogue. The function takes the database and returns listings only: it changes no
  state.
\<close>

theorem availability_filter:
  assumes "query ''min_price'' = None" and "query ''max_price'' = None"
    and "query ''check_in_date'' = Some ci" and "query ''check_out_date'' = Some co"
    and "ci \<noteq> []" and "co \<noteq> []"
    and "to_date ci = Some check_in" and "to_date co = Some check_out"
    and "check_in < check_out"
  shows "listing_get_queryset to_decimal to_date d query =
           Inr (filter (\<lambda>l. \<not> (\<exists>b \<in> set (bookings d).
                                  booking_listing_id b = listing_id l
                                  \<and> (status b = Pending \<or> status b = Confirmed)
                                  \<and> check_in_date b < check_out \<and> check_out_date b > check_in))
                  (listing_queryset d))"
  using assms(1-8) by (rule get_queryset_with_dates)

theorem availability_filter_witness:
  "listing_get_queryset demo_decimal demo_dates demo_db
     [''check_in_date'' \<mapsto> ''2024-06-03'', ''check_out_date'' \<mapsto> ''2024-06-07''] = Inr [city_flat]
   \<and> (2024, 6, 3) < ((2024, 6, 7) :: date)"
  using availability_filter [of "[''check_in_date'' \<mapsto> ''2024-06-03'', ''check_out_date'' \<mapsto> ''2024-06-07'']"
      "''2024-06-03''" "''2024-06-07''" demo_dates "(2024, 6, 3)" "(2024, 6, 7)" demo_decimal demo_db]
  by (simp add: demo_defs listing_queryset_def)




text \<open>
  C7. When either date parameter is absent, \<open>get_queryset\<close> filters by no date: its
  result is the one without the date parameters, whatever the bookings table holds; and
  with no price bound either it is the catalogue of active listings itself, in order.
\<close>

theorem no_filter_default:
  assumes "query ''check_in_date'' = None \<or> query ''check_out_date'' = None"
  shows "listing_get_queryset to_decimal to_date d query =
           listing_get_queryset to_decimal to_date d
             (query(''check_in_date'' := None, ''check_out_date'' := None))
         \<and> listing_get_queryset to_decimal to_date d query =
           listing_get_queryset to_decimal to_date (d\<lparr>bookings := bs\<rparr>) query
         \<and> (query ''min_price'' = None \<and> query ''max_price'' = None \<longrightarrow>
              listing_get_queryset to_decimal to_date d query = Inr (filter is_active (listings d)))"
  using assms
  by (auto simp: listing_get_queryset_def exclude_overlapping_absent listing_queryset_def
      filter_min_price_None filter_max_price_None split: sum.splits)

theorem no_filter_default_witness:
  "listing_get_queryset demo_decimal demo_dates demo_db Map.empty = Inr [beach_house, city_flat]
   \<and> listing_get_queryset demo_decimal demo_dates demo_db [''check_in_date'' \<mapsto> ''2024-06-03'']
       = Inr [beach_house, city_flat]"
  using no_filter_default [of Map.empty demo_decimal demo_dates demo_db "[]"]
    no_filter_default [of "[''check_in_date'' \<mapsto> ''2024-06-03'']" demo_decimal demo_dates demo_db "[]"]
  by (simp add: demo_defs listing_view_defs)


subsection \<open>The \<open>available\<close> action\<close>

lemma filter_min_price_Inr:
  "filter_min_price td (Some s) qs = Inr q1 \<Longrightarrow> td s = Some p \<Longrightarrow> q1 = filter (\<lambda>l. p \<le> price_per_night l) qs"
  by (simp add: filter_min_price_def)

lemma filter_max_price_Inr:
  "filter_max_price td (Some s) qs = Inr q1 \<Longrightarrow> td s = Some p \<Longrightarrow> q1 = filter (\<lambda>l. price_per_night l \<le> p) qs"
  by (simp add: filter_max_price_def)

lemma filter_min_price_subset: "filter_min_price td v qs = Inr q1 \<Longrightarrow> set q1 \<subseteq> set qs"
  by (auto simp: filter_min_price_def split: option.splits)

lemma filter_max_price_subset: "filter_max_price td v qs = Inr q1 \<Longrightarrow> set q1 \<subseteq> set qs"
  by (auto simp: filter_max_price_def split: option.splits)

lemma exclude_overlapping_subset: "exclude_overlapping tdt d ci co qs = Inr q1 \<Longrightarrow> set q1 \<subseteq> set qs"
  by (auto simp: exclude_overlapping_def split: option.splits if_splits)

lemma get_queryset_min_price:
  assumes "listing_get_queryset td tdt d query = Inr qs"
    and "query ''min_price'' = Some s" and "td s = Some p" and "l \<in> set qs"
  shows "p \<le> price_per_night l"
proof -
  from assms(1) obtain q1 q2 where
    q1: "filter_min_price td (query ''min_price'') (listing_queryset d) = Inr q1" and
    q2: "filter_max_price td (query ''max_price'') q1 = Inr q2" and
    q3: "exclude_overlapping tdt d (query ''check_in_date'') (query ''check_out_date'') q2 = Inr qs"
    by (auto simp: listing_get_queryset_def split: sum.splits)
  from q1 assms(2,3) have "q1 = filter (\<lambda>l. p \<le> price_per_night l) (listing_queryset d)"
    by (simp add: filter_min_price_Inr)
  moreover have "l \<in> set q1"
    using assms(4) filter_max_price_subset [OF q2] exclude_overlapping_subset [OF q3] by blast
  ultimately show ?thesis by simp
qed

lemma get_queryset_max_price:
  assumes "listing_get_queryset td tdt d query = Inr qs"
    and "query ''max_price'' = Some s" and "td s = Some p" and "l \<in> set qs"
  shows "price_per_night l \<le> p"
proof -
  from assms(1) obtain q1 q2 where
    q1: "filter_min_price td (query ''min_price'') (listing_queryset d) = Inr q1" and
    q2: "filter_max_price td (query ''max_price'') q1 = Inr q2" and
    q3: "exclude_overlapping tdt d (query ''check_in_date'') (query ''check_out_date'') q2 = Inr qs"
    by (auto simp: listing_get_queryset_def split: sum.splits)
  from q2 assms(2,3) have "q2 = filter (\<lambda>l. price_per_night l \<le> p) q1"
    by (simp add: filter_max_price_Inr)
  moreover have "l \<in> set q2"
    using assms(4) exclude_overlapping_subset [OF q3] by blast
  ultimately show ?thesis by simp
qed


text \<open>
  C10. With both dates given, \<open>available\<close> answers with exactly what \<open>get_queryset\<close>
  returns for the same parameters; so a listing priced below \<^verbatim>\<open>min_price\<close> or above
  \<^verbatim>\<open>max_price\<close> is not in its answer, booked or not. With a date missing it answers
  400 itself.
\<close>

theorem available_composes_filters:
  "(truthy (query ''check_in_date'') \<and> truthy (query ''check_out_date'') \<longrightarrow>
      available to_decimal to_date d query =
        (case listing_get_queryset to_decimal to_date d query of
           Inl e \<Rightarrow> Inl e
         | Inr queryset \<Rightarrow> Inr (Response (ListingsBody queryset) 200)))
   \<and> (\<forall>qs s p l. available to_decimal to_date d query = Inr (Response (ListingsBody qs) 200)
          \<and> query ''min_price'' = Some s \<and> to_decimal s = Some p \<and> price_per_night l < p
        \<longrightarrow> l \<notin> set qs)
   \<and> (\<forall>qs s p l. available to_decimal to_date d query = Inr (Response (ListingsBody qs) 200)
          \<and> query ''max_price'' = Some s \<and> to_decimal s = Some p \<and> p < price_per_night l
        \<longrightarrow> l \<notin> set qs)
   \<and> (\<not> truthy (query ''check_in_date'') \<or> \<not> truthy (query ''check_out_date'') \<longrightarrow>
        available to_decimal to_date d query =
          Inr (Response (ErrorBody ''Both check_in_date and check_out_date are required'') 400))"
proof -
  have a: "available to_decimal to_date d query = Inr (Response (ListingsBody qs) 200)
      \<Longrightarrow> listing_get_queryset to_decimal to_date d query = Inr qs" for qs
    by (auto simp: available_def split: if_splits sum.splits)
  have "l \<notin> set qs"
    if "available to_decimal to_date d query = Inr (Response (ListingsBody qs) 200)"
      and "query ''min_price'' = Some s" and "to_decimal s = Some p" and "price_per_night l < p"
    for qs s p l
    using get_queryset_min_price [OF a [OF that(1)] that(2,3), of l] that(4) by auto
  moreover have "l \<notin> set qs"
    if "available to_decimal to_date d query = Inr (Response (ListingsBody qs) 200)"
      and "query ''max_price'' = Some s" and "to_decimal s = Some p" and "p < price_per_night l"
    for qs s p l
    using get_queryset_max_price [OF a [OF that(1)] that(2,3), of l] that(4) by auto
  moreover have "truthy (query ''check_in_date'') \<and> truthy (query ''check_out_date'') \<longrightarrow>
      available to_decimal to_date d query =
        (case listing_get_queryset to_decimal to_date d query of
           Inl e \<Rightarrow> Inl e
         | Inr queryset \<Rightarrow> Inr (Response (ListingsBody queryset) 200))"
    by (simp add: available_def)
  moreover have "\<not> truthy (query ''check_in_date'') \<or> \<not> truthy (query ''check_out_date'') \<longrightarrow>
        available to_decimal to_date d query =
          Inr (Response (ErrorBody ''Both check_in_date and check_out_date are required'') 400)"
    by (simp add: available_def)
  ultimately show ?thesis by blast
qed

theorem available_composes_filters_witness:
  "available demo_decimal demo_dates demo_db
     [''check_in_date'' \<mapsto> ''2024-06-05'', ''check_out_date'' \<mapsto> ''2024-06-10'', ''min_price'' \<mapsto> ''100'']
     = Inr (Response (ListingsBody [beach_house]) 200)
   \<and> city_flat \<notin> set [beach_house]
   \<and> available demo_decimal demo_dates demo_db [''check_in_date'' \<mapsto> ''2024-06-05'']
     = Inr (Response (ErrorBody ''Both check_in_date and check_out_date are required'') 400)"
  using available_composes_filters [of
      "[''check_in_date'' \<mapsto> ''2024-06-05'', ''check_out_date'' \<mapsto> ''2024-06-10'', ''min_price'' \<mapsto> ''100'']"
      demo_decimal demo_dates demo_db]
    available_composes_filters [of "[''check_in_date'' \<mapsto> ''2024-06-05'']" demo_decimal demo_dates demo_db]
  by (simp add: demo_defs listing_view_defs)


section \<open>The booking lifecycle\<close>

lemma filter_queryset_unfiltered:
  "\<not> truthy (query ''status'') \<Longrightarrow> \<not> truthy (query ''listing'') \<Longrightarrow>
   filter_queryset to_pk d query qs = Inr qs"
  by (auto simp: filter_queryset_def clean_status_def clean_listing_def truthy_def
      split: option.splits)

lemma filter_queryset_row:
  "filter_queryset to_pk d query [b] = Inr [b] \<or> filter_queryset to_pk d query [b] = Inr []
   \<or> filter_queryset to_pk d query [b] = Inl ValidationError"
  by (simp add: filter_queryset_def Let_def)

lemma filter_queryset_Inr:
  "filter_queryset to_pk d query qs = Inr qs' \<Longrightarrow>
   qs' = filter (\<lambda>b. admits (clean_status (query ''status'')) (status b)
                    \<and> admits (clean_listing to_pk d (query ''listing'')) (booking_listing_id b)) qs"
  by (simp add: filter_queryset_def Let_def split: if_splits)

lemma filter_queryset_Inl:
  "filter_queryset to_pk d query qs = Inl e \<Longrightarrow>
   e = ValidationError \<and> filter_queryset to_pk d query qs' = Inl ValidationError"
  by (simp add: filter_queryset_def Let_def split: if_splits)

lemma filter_queryset_Inr_any:
  "filter_queryset to_pk d query qs = Inr qs' \<Longrightarrow>
   filter_queryset to_pk d query xs =
     Inr (filter (\<lambda>b. admits (clean_status (query ''status'')) (status b)
                     \<and> admits (clean_listing to_pk d (query ''listing'')) (booking_listing_id b)) xs)"
  by (simp add: filter_queryset_def Let_def split: if_splits)

lemma get_object_Inr:
  assumes "get_object to_pk d u query pk = Inr b"
  shows "b \<in> set (bookings d) \<and> booking_user b = u \<and> booking_id b = pk
       \<and> filter_queryset to_pk d query [b] = Inr [b]"
proof -
  let ?P = "\<lambda>b. admits (clean_status (query ''status'')) (status b)
                 \<and> admits (clean_listing to_pk d (query ''listing'')) (booking_listing_id b)"
  from assms obtain qs where
    qs: "filter_queryset to_pk d query (booking_get_queryset d u) = Inr qs"
    by (auto simp: get_object_def split: sum.splits)
  with assms obtain bs where "filter (\<lambda>b. booking_id b = pk) qs = b # bs"
    by (auto simp: get_object_def split: list.splits)
  then have "b \<in> set (filter (\<lambda>b. booking_id b = pk) qs)" by simp
  then have "b \<in> set qs" and pk: "booking_id b = pk" by simp_all
  with filter_queryset_Inr [OF qs]
  have "?P b" and "b \<in> set (booking_get_queryset d u)" by simp_all
  then have "filter ?P [b] = [b]" and "b \<in> set (bookings d)" and "booking_user b = u"
    by (simp_all add: booking_get_queryset_def)
  with filter_queryset_Inr_any [OF qs, of "[b]"] pk show ?thesis by simp
qed

lemma unique_row:
  "distinct (map booking_id bs) \<Longrightarrow> b \<in> set bs \<Longrightarrow>
   filter (\<lambda>r. booking_id r = booking_id b) bs = [b]"
proof (induction bs)
  case Nil
  then show ?case by simp
next
  case (Cons r bs)
  show ?case
  proof (cases "r = b")
    case True
    with Cons.prems have "booking_id b \<notin> booking_id ` set bs" by simp
    then have "\<forall>x \<in> set bs. booking_id x \<noteq> booking_id b" by (metis imageI)
    then have "filter (\<lambda>r. booking_id r = booking_id b) bs = []"
      by (simp add: filter_empty_conv)
    with True show ?thesis by simp
  next
    case False
    with Cons.prems have "b \<in> set bs" and "booking_id r \<noteq> booking_id b" by auto
    with Cons show ?thesis by simp
  qed
qed

lemma filter_rotate:
  "filter A (filter B (filter C xs)) = filter B (filter C (filter A xs))"
  by (induction xs) auto

lemma get_object_owner:
  assumes "distinct (map booking_id (bookings d))" and "b \<in> set (bookings d)"
    and "booking_user b = u" and "booking_id b = pk"
  shows "get_object to_pk d u query pk =
           (case filter_queryset to_pk d query [b] of
              Inl e \<Rightarrow> Inl e
            | Inr qs \<Rightarrow> (case qs of [] \<Rightarrow> Inl NotFound | x # _ \<Rightarrow> Inr x))"
proof (cases "filter_queryset to_pk d query [b]")
  case (Inl e)
  from filter_queryset_Inl [OF Inl, of "booking_get_queryset d u"] Inl
  show ?thesis by (simp add: get_object_def)
next
  case (Inr qs)
  let ?P = "\<lambda>b. admits (clean_status (query ''status'')) (status b)
                 \<and> admits (clean_listing to_pk d (query ''listing'')) (booking_listing_id b)"
  have "filter (\<lambda>r. booking_id r = pk) (filter ?P (filter (\<lambda>r. booking_user r = u) (bookings d)))
      = filter ?P (filter (\<lambda>r. booking_user r = u) (filter (\<lambda>r. booking_id r = pk) (bookings d)))"
    by (rule filter_rotate)
  also have "\<dots> = filter ?P [b]"
    using unique_row [OF assms(1,2)] assms(3,4) by simp
  finally have "filter (\<lambda>r. booking_id r = pk)
      (filter ?P (filter (\<lambda>r. booking_user r = u) (bookings d))) = filter ?P [b]" .
  moreover have "qs = filter ?P [b]" by (rule filter_queryset_Inr [OF Inr])
  ultimately show ?thesis
    using Inr filter_queryset_Inr_any [OF Inr, of "booking_get_queryset d u"]
    by (simp add: get_object_def booking_get_queryset_def)
qed

lemma get_object_admitted:
  assumes "distinct (map booking_id (bookings d))" and "b \<in> set (bookings d)"
    and "booking_user b = u" and "booking_id b = pk"
    and "filter_queryset to_pk d query [b] = Inr [b]"
  shows "get_object to_pk d u query pk = Inr b"
  by (simp add: get_object_owner [OF assms(1-4)] assms(5))

lemma get_object_excluded:
  assumes "distinct (map booking_id (bookings d))" and "b \<in> set (bookings d)"
    and "booking_user b = u" and "booking_id b = pk"
    and "filter_queryset to_pk d query [b] = Inr []"
  shows "get_object to_pk d u query pk = Inl NotFound"
  by (simp add: get_object_owner [OF assms(1-4)] assms(5))

lemma get_object_invalid:
  assumes "filter_queryset to_pk d query qs = Inl ValidationError"
  shows "get_object to_pk d u query pk = Inl ValidationError"
  using filter_queryset_Inl [OF assms, of "booking_get_queryset d u"]
  by (simp add: get_object_def)

lemma update_unique_row:
  assumes "distinct (map booking_id bs)" and "b \<in> set bs" and "booking_id b' = booking_id b"
  shows "map (\<lambda>r. if booking_id r = booking_id b' then b' else r) bs
       = map (\<lambda>r. if r = b then b' else r) bs"
proof (rule map_cong [OF refl])
  fix r assume "r \<in> set bs"
  with assms(1,2) have "booking_id r = booking_id b \<longleftrightarrow> r = b"
    by (auto dest: inj_onD [OF iffD1 [OF distinct_map, THEN conjunct2]])
  with assms(3) show "(if booking_id r = booking_id b' then b' else r) = (if r = b then b' else r)"
    by simp
qed

lemma save_status:
  assumes "distinct (map booking_id (bookings d))" and "b \<in> set (bookings d)"
  shows "save d (b\<lparr>status := s\<rparr>)
       = d\<lparr>bookings := map (\<lambda>r. if r = b then r\<lparr>status := s\<rparr> else r) (bookings d)\<rparr>"
proof -
  from update_unique_row [OF assms, of "b\<lparr>status := s\<rparr>"]
  have "map (\<lambda>r. if booking_id r = booking_id b then b\<lparr>status := s\<rparr> else r) (bookings d)
      = map (\<lambda>r. if r = b then b\<lparr>status := s\<rparr> else r) (bookings d)"
    by simp
  also have "\<dots> = map (\<lambda>r. if r = b then r\<lparr>status := s\<rparr> else r) (bookings d)"
    by (rule map_cong) auto
  finally show ?thesis by (simp add: save_def)
qed

lemma confirm_found:
  "get_object to_pk d u query pk = Inr b \<Longrightarrow>
   confirm to_pk d (Some u) query pk =
     (if status b = Pending then
        (Inr (Response (MessageBody ''Booking confirmed successfully'' (b\<lparr>status := Confirmed\<rparr>)) 200),
         save d (b\<lparr>status := Confirmed\<rparr>))
      else
        (Inr (Response (ErrorBody (''Cannot confirm a booking that is '' @ status_value (status b))) 400),
         d))"
  by (simp add: confirm_def Let_def)

lemma cancel_found:
  "get_object to_pk d u query pk = Inr b \<Longrightarrow>
   cancel to_pk d (Some u) query pk =
     (if status b = Pending \<or> status b = Confirmed then
        (Inr (Response (MessageBody ''Booking cancelled successfully'' (b\<lparr>status := Cancelled\<rparr>)) 200),
         save d (b\<lparr>status := Cancelled\<rparr>))
      else
        (Inr (Response (ErrorBody (''Cannot cancel a booking that is already '' @ status_value (status b))) 400),
         d))"
  by (cases "status b") (simp_all add: cancel_def Let_def)

lemma confirm_not_found:
  "get_object to_pk d u query pk = Inl e \<Longrightarrow> confirm to_pk d (Some u) query pk = (Inl e, d)"
  by (simp add: confirm_def)

lemma cancel_not_found:
  "get_object to_pk d u query pk = Inl e \<Longrightarrow> cancel to_pk d (Some u) query pk = (Inl e, d)"
  by (simp add: cancel_def)

text \<open>
  C4, amended. The lookup of \<open>confirm\<close> applies the request's \<^verbatim>\<open>status\<close> and
  \<^verbatim>\<open>listing\<close> filters, so a request that names another status is not found whatever
  the booking's status is, and the outcome depends on the filters. For a booking \<open>b\<close> of the requesting
  user that the request addresses by its key, when the request's filter parameters
  admit \<open>b\<close> (a request without such parameters always does), \<open>confirm\<close> succeeds exactly
  when \<open>b\<close> is pending, and then the only change to the table is that the row \<open>b\<close> has
  status confirmed; from confirmed, cancelled or completed it answers 400 with a
  message that ends in the current status, and the database is unchanged. When the
  filters leave \<open>b\<close> out the answer is not found, and on an invalid filter value a
  validation error, with the database unchanged.
\<close>

theorem confirm_transition:
  assumes "distinct (map booking_id (bookings d))" and "b \<in> set (bookings d)"
    and "booking_user b = u" and "booking_id b = pk"
  shows "(filter_queryset to_pk d query [b] = Inr [b] \<longrightarrow>
          confirm to_pk d (Some u) query pk =
            (if status b = Pending then
               (Inr (Response (MessageBody ''Booking confirmed successfully'' (b\<lparr>status := Confirmed\<rparr>)) 200),
                d\<lparr>bookings := map (\<lambda>r. if r = b then r\<lparr>status := Confirmed\<rparr> else r) (bookings d)\<rparr>)
             else
               (Inr (Response (ErrorBody (''Cannot confirm a booking that is '' @ status_value (status b))) 400),
                d)))
       \<and> (filter_queryset to_pk d query [b] = Inr [] \<longrightarrow>
          confirm to_pk d (Some u) query pk = (Inl NotFound, d))
       \<and> (filter_queryset to_pk d query [b] = Inl ValidationError \<longrightarrow>
          confirm to_pk d (Some u) query pk = (Inl ValidationError, d))
       \<and> (filter_queryset to_pk d query [b] = Inr [b] \<or> filter_queryset to_pk d query [b] = Inr []
          \<or> filter_queryset to_pk d query [b] = Inl ValidationError)
       \<and> (\<not> truthy (query ''status'') \<and> \<not> truthy (query ''listing'') \<longrightarrow>
          filter_queryset to_pk d query [b] = Inr [b])"
proof (intro conjI impI)
  assume a: "filter_queryset to_pk d query [b] = Inr [b]"
  from confirm_found [OF get_object_admitted [OF assms a]] save_status [OF assms(1,2), of Confirmed]
  show "confirm to_pk d (Some u) query pk =
            (if status b = Pending then
               (Inr (Response (MessageBody ''Booking confirmed successfully'' (b\<lparr>status := Confirmed\<rparr>)) 200),
                d\<lparr>bookings := map (\<lambda>r. if r = b then r\<lparr>status := Confirmed\<rparr> else r) (bookings d)\<rparr>)
             else
               (Inr (Response (ErrorBody (''Cannot confirm a booking that is '' @ status_value (status b))) 400),
                d))"
    by simp
next
  assume "filter_queryset to_pk d query [b] = Inr []"
  from confirm_not_found [OF get_object_excluded [OF assms this]]
  show "confirm to_pk d (Some u) query pk = (Inl NotFound, d)" .
next
  assume "filter_queryset to_pk d query [b] = Inl ValidationError"
  from confirm_not_found [OF get_object_invalid [OF this]]
  show "confirm to_pk d (Some u) query pk = (Inl ValidationError, d)" .
next
  show "filter_queryset to_pk d query [b] = Inr [b] \<or> filter_queryset to_pk d query [b] = Inr []
          \<or> filter_queryset to_pk d query [b] = Inl ValidationError"
    by (rule filter_queryset_row)
next
  assume "\<not> truthy (query ''status'') \<and> \<not> truthy (query ''listing'')"
  then show "filter_queryset to_pk d query [b] = Inr [b]"
    by (simp add: filter_queryset_unfiltered)
qed

theorem confirm_transition_witness:
  "confirm demo_pk demo_db (Some 7) Map.empty 1 =
     (Inr (Response (MessageBody ''Booking confirmed successfully'' (first_booking\<lparr>status := Confirmed\<rparr>)) 200),
      demo_db\<lparr>bookings := [first_booking\<lparr>status := Confirmed\<rparr>, second_booking]\<rparr>)
   \<and> confirm demo_pk demo_db (Some 7) [''status'' \<mapsto> ''pending'', ''listing'' \<mapsto> ''1''] 1 =
     (Inr (Response (MessageBody ''Booking confirmed successfully'' (first_booking\<lparr>status := Confirmed\<rparr>)) 200),
      demo_db\<lparr>bookings := [first_booking\<lparr>status := Confirmed\<rparr>, second_booking]\<rparr>)
   \<and> confirm demo_pk demo_db (Some 8) Map.empty 2 =
     (Inr (Response (ErrorBody ''Cannot confirm a booking that is cancelled'') 400), demo_db)
   \<and> confirm demo_pk demo_db (Some 7) [''listing'' \<mapsto> ''2''] 1 = (Inl NotFound, demo_db)
   \<and> confirm demo_pk demo_db (Some 7) [''status'' \<mapsto> ''booked''] 1 = (Inl ValidationError, demo_db)"
  using confirm_transition [of demo_db first_booking 7 1 demo_pk Map.empty]
    confirm_transition [of demo_db first_booking 7 1 demo_pk "[''status'' \<mapsto> ''pending'', ''listing'' \<mapsto> ''1'']"]
    confirm_transition [of demo_db second_booking 8 2 demo_pk Map.empty]
    confirm_transition [of demo_db first_booking 7 1 demo_pk "[''listing'' \<mapsto> ''2'']"]
    confirm_transition [of demo_db first_booking 7 1 demo_pk "[''status'' \<mapsto> ''booked'']"]
  by (simp add: demo_defs booking_view_defs truthy_def)

text \<open>
  The owner's pending booking 1, confirmed with \<^verbatim>\<open>?status=cancelled\<close>, is not found
  and stays pending; the owner's cancelled booking 2, confirmed with
  \<^verbatim>\<open>?status=pending\<close>, is not found either, so the answer does not name its status.
\<close>

theorem confirm_transition_counterexample:
  "first_booking \<in> set (booking_get_queryset demo_db 7) \<and> booking_id first_booking = 1
   \<and> status first_booking = Pending
   \<and> confirm demo_pk demo_db (Some 7) [''status'' \<mapsto> ''cancelled''] 1 = (Inl NotFound, demo_db)
   \<and> second_booking \<in> set (booking_get_queryset demo_db 8) \<and> booking_id second_booking = 2
   \<and> status second_booking = Cancelled
   \<and> confirm demo_pk demo_db (Some 8) [''status'' \<mapsto> ''pending''] 2 = (Inl NotFound, demo_db)"
  by (simp add: demo_defs booking_view_defs)

lemma ids_after_save:
  "map booking_id (bookings (save d b)) = map booking_id (bookings d)"
  unfolding save_def by (simp add: comp_def)

lemma row_after_save:
  assumes "distinct (map booking_id (bookings d))" and "b \<in> set (bookings d)"
  shows "distinct (map booking_id (bookings (save d (b\<lparr>status := s\<rparr>))))
       \<and> b\<lparr>status := s\<rparr> \<in> set (bookings (save d (b\<lparr>status := s\<rparr>)))"
proof -
  have "b\<lparr>status := s\<rparr> \<in> (\<lambda>r. if r = b then r\<lparr>status := s\<rparr> else r) ` set (bookings d)"
    using assms(2) by (rule rev_image_eqI) simp
  then have "b\<lparr>status := s\<rparr> \<in> set (bookings (save d (b\<lparr>status := s\<rparr>)))"
    by (simp add: save_status [OF assms])
  then show ?thesis using assms(1) by (simp add: ids_after_save)
qed

lemma cancelled_row:
  assumes "distinct (map booking_id (bookings d))" and "b \<in> set (bookings d)"
    and "booking_user b = u" and "booking_id b = pk" and "status b = Cancelled"
    and "filter_queryset to_pk d query [b] = Inr [b]"
  shows "cancel to_pk d (Some u) query pk =
           (Inr (Response (ErrorBody ''Cannot cancel a booking that is already cancelled'') 400), d)
       \<and> confirm to_pk d (Some u) query pk =
           (Inr (Response (ErrorBody ''Cannot confirm a booking that is cancelled'') 400), d)"
  using cancel_found [OF get_object_admitted [OF assms(1-4,6)]]
    confirm_found [OF get_object_admitted [OF assms(1-4,6)]] assms(5)
  by simp

text \<open>
  C5, amended. The lookup of \<open>cancel\<close> applies the request's \<^verbatim>\<open>status\<close> and
  \<^verbatim>\<open>listing\<close> filters, so a request that names another status is not found whatever
  the booking's status is, and the outcome depends on the filters. For a booking \<open>b\<close> of the requesting
  user that the request addresses by its key, when the request's filter parameters
  admit \<open>b\<close> (a request without such parameters always does), \<open>cancel\<close> succeeds exactly
  when \<open>b\<close> is pending or confirmed, and then the only change is that the row \<open>b\<close> has
  status cancelled; from cancelled or completed it answers 400 with a message that
  ends in the current status, and the database is unchanged. After a successful
  cancel, a second cancel and a confirm whose filters admit the cancelled row both
  fail with a message naming \<^verbatim>\<open>cancelled\<close>, as does such a confirm of any cancelled
  booking. When the filters leave \<open>b\<close> out the answer is not found, and on an invalid
  filter value a validation error, with the database unchanged.
\<close>

theorem cancel_transition:
  assumes "distinct (map booking_id (bookings d))" and "b \<in> set (bookings d)"
    and "booking_user b = u" and "booking_id b = pk"
  shows "(filter_queryset to_pk d query [b] = Inr [b] \<longrightarrow>
          cancel to_pk d (Some u) query pk =
            (if status b = Pending \<or> status b = Confirmed then
               (Inr (Response (MessageBody ''Booking cancelled successfully'' (b\<lparr>status := Cancelled\<rparr>)) 200),
                d\<lparr>bookings := map (\<lambda>r. if r = b then r\<lparr>status := Cancelled\<rparr> else r) (bookings d)\<rparr>)
             else
               (Inr (Response (ErrorBody (''Cannot cancel a booking that is already '' @ status_value (status b))) 400),
                d)))
       \<and> (filter_queryset to_pk d query [b] = Inr [b] \<and> (status b = Pending \<or> status b = Confirmed)
          \<and> filter_queryset to_pk (snd (cancel to_pk d (Some u) query pk)) query' [b\<lparr>status := Cancelled\<rparr>]
              = Inr [b\<lparr>status := Cancelled\<rparr>] \<longrightarrow>
          cancel to_pk (snd (cancel to_pk d (Some u) query pk)) (Some u) query' pk =
            (Inr (Response (ErrorBody ''Cannot cancel a booking that is already cancelled'') 400),
             snd (cancel to_pk d (Some u) query pk))
          \<and> confirm to_pk (snd (cancel to_pk d (Some u) query pk)) (Some u) query' pk =
            (Inr (Response (ErrorBody ''Cannot confirm a booking that is cancelled'') 400),
             snd (cancel to_pk d (Some u) query pk)))
       \<and> (filter_queryset to_pk d query [b] = Inr [b] \<and> status b = Cancelled \<longrightarrow>
          confirm to_pk d (Some u) query pk =
            (Inr (Response (ErrorBody ''Cannot confirm a booking that is cancelled'') 400), d))
       \<and> (filter_queryset to_pk d query [b] = Inr [] \<longrightarrow>
          cancel to_pk d (Some u) query pk = (Inl NotFound, d))
       \<and> (filter_queryset to_pk d query [b] = Inl ValidationError \<longrightarrow>
          cancel to_pk d (Some u) query pk = (Inl ValidationError, d))
       \<and> (filter_queryset to_pk d query [b] = Inr [b] \<or> filter_queryset to_pk d query [b] = Inr []
          \<or> filter_queryset to_pk d query [b] = Inl ValidationError)
       \<and> (\<forall>q d0 qs. \<not> truthy (q ''status'') \<and> \<not> truthy (q ''listing'') \<longrightarrow>
            filter_queryset to_pk d0 q qs = Inr qs)"
proof -
  let ?b' = "b\<lparr>status := Cancelled\<rparr>"
  let ?d' = "snd (cancel to_pk d (Some u) query pk)"
  have c1: "filter_queryset to_pk d query [b] = Inr [b] \<longrightarrow>
          cancel to_pk d (Some u) query pk =
            (if status b = Pending \<or> status b = Confirmed then
               (Inr (Response (MessageBody ''Booking cancelled successfully'' (b\<lparr>status := Cancelled\<rparr>)) 200),
                d\<lparr>bookings := map (\<lambda>r. if r = b then r\<lparr>status := Cancelled\<rparr> else r) (bookings d)\<rparr>)
             else
               (Inr (Response (ErrorBody (''Cannot cancel a booking that is already '' @ status_value (status b))) 400),
                d))"
  proof
    assume a: "filter_queryset to_pk d query [b] = Inr [b]"
    from cancel_found [OF get_object_admitted [OF assms a]] save_status [OF assms(1,2), of Cancelled]
    show "cancel to_pk d (Some u) query pk =
            (if status b = Pending \<or> status b = Confirmed then
               (Inr (Response (MessageBody ''Booking cancelled successfully'' (b\<lparr>status := Cancelled\<rparr>)) 200),
                d\<lparr>bookings := map (\<lambda>r. if r = b then r\<lparr>status := Cancelled\<rparr> else r) (bookings d)\<rparr>)
             else
               (Inr (Response (ErrorBody (''Cannot cancel a booking that is already '' @ status_value (status b))) 400),
                d))"
      by simp
  qed
  have c2: "filter_queryset to_pk d query [b] = Inr [b] \<and> (status b = Pending \<or> status b = Confirmed)
          \<and> filter_queryset to_pk ?d' query' [?b'] = Inr [?b'] \<longrightarrow>
          cancel to_pk ?d' (Some u) query' pk =
            (Inr (Response (ErrorBody ''Cannot cancel a booking that is already cancelled'') 400), ?d')
          \<and> confirm to_pk ?d' (Some u) query' pk =
            (Inr (Response (ErrorBody ''Cannot confirm a booking that is cancelled'') 400), ?d')"
  proof
    assume a: "filter_queryset to_pk d query [b] = Inr [b] \<and> (status b = Pending \<or> status b = Confirmed)
          \<and> filter_queryset to_pk ?d' query' [?b'] = Inr [?b']"
    then have d': "?d' = save d ?b'"
      using cancel_found [OF get_object_admitted [OF assms], of to_pk query] by auto
    have row: "distinct (map booking_id (bookings ?d'))" "?b' \<in> set (bookings ?d')"
      using row_after_save [OF assms(1,2), of Cancelled] by (simp_all add: d')
    have "booking_user ?b' = u" "booking_id ?b' = pk" "status ?b' = Cancelled"
      using assms(3,4) by simp_all
    from cancelled_row [OF row this] a
    show "cancel to_pk ?d' (Some u) query' pk =
            (Inr (Response (ErrorBody ''Cannot cancel a booking that is already cancelled'') 400), ?d')
          \<and> confirm to_pk ?d' (Some u) query' pk =
            (Inr (Response (ErrorBody ''Cannot confirm a booking that is cancelled'') 400), ?d')"
      by blast
  qed
  have c3: "filter_queryset to_pk d query [b] = Inr [b] \<and> status b = Cancelled \<longrightarrow>
          confirm to_pk d (Some u) query pk =
            (Inr (Response (ErrorBody ''Cannot confirm a booking that is cancelled'') 400), d)"
    using cancelled_row [OF assms, of to_pk query] by blast
  have c4: "filter_queryset to_pk d query [b] = Inr [] \<longrightarrow>
          cancel to_pk d (Some u) query pk = (Inl NotFound, d)"
    using cancel_not_found [OF get_object_excluded [OF assms]] by blast
  have c5: "filter_queryset to_pk d query [b] = Inl ValidationError \<longrightarrow>
          cancel to_pk d (Some u) query pk = (Inl ValidationError, d)"
    using cancel_not_found [OF get_object_invalid] by blast
  have c6: "filter_queryset to_pk d query [b] = Inr [b] \<or> filter_queryset to_pk d query [b] = Inr []
          \<or> filter_queryset to_pk d query [b] = Inl ValidationError"
    by (rule filter_queryset_row)
  have c7: "\<forall>q d0 qs. \<not> truthy (q ''status'') \<and> \<not> truthy (q ''listing'') \<longrightarrow>
            filter_queryset to_pk d0 q qs = Inr qs"
    by (simp add: filter_queryset_unfiltered)
  show ?thesis
    by (intro conjI) (rule c1, rule c2, rule c3, rule c4, rule c5, rule c6, rule c7)
qed

theorem cancel_transition_witness:
  "cancel demo_pk demo_db (Some 7) Map.empty 1 =
     (Inr (Response (MessageBody ''Booking cancelled successfully'' (first_booking\<lparr>status := Cancelled\<rparr>)) 200),
      demo_db\<lparr>bookings := [first_booking\<lparr>status := Cancelled\<rparr>, second_booking]\<rparr>)
   \<and> cancel demo_pk (snd (cancel demo_pk demo_db (Some 7) Map.empty 1)) (Some 7) Map.empty 1 =
     (Inr (Response (ErrorBody ''Cannot cancel a booking that is already cancelled'') 400),
      snd (cancel demo_pk demo_db (Some 7) Map.empty 1))
   \<and> confirm demo_pk (snd (cancel demo_pk demo_db (Some 7) Map.empty 1)) (Some 7) Map.empty 1 =
     (Inr (Response (ErrorBody ''Cannot confirm a booking that is cancelled'') 400),
      snd (cancel demo_pk demo_db (Some 7) Map.empty 1))
   \<and> cancel demo_pk demo_db (Some 8) [''status'' \<mapsto> ''cancelled''] 2 =
     (Inr (Response (ErrorBody ''Cannot cancel a booking that is already cancelled'') 400), demo_db)
   \<and> confirm demo_pk demo_db (Some 8) Map.empty 2 =
     (Inr (Response (ErrorBody ''Cannot confirm a booking that is cancelled'') 400), demo_db)
   \<and> cancel demo_pk demo_db (Some 7) [''listing'' \<mapsto> ''2''] 1 = (Inl NotFound, demo_db)
   \<and> cancel demo_pk demo_db (Some 7) [''listing'' \<mapsto> ''9''] 1 = (Inl ValidationError, demo_db)"
  using cancel_transition [of demo_db first_booking 7 1 demo_pk Map.empty Map.empty]
    cancel_transition [of demo_db second_booking 8 2 demo_pk "[''status'' \<mapsto> ''cancelled'']" Map.empty]
    cancel_transition [of demo_db second_booking 8 2 demo_pk Map.empty Map.empty]
    cancel_transition [of demo_db first_booking 7 1 demo_pk "[''listing'' \<mapsto> ''2'']" Map.empty]
    cancel_transition [of demo_db first_booking 7 1 demo_pk "[''listing'' \<mapsto> ''9'']" Map.empty]
  by (simp add: demo_defs booking_view_defs truthy_def)

text \<open>
  The owner's pending booking 1, cancelled with \<^verbatim>\<open>?status=cancelled\<close>, is not found and
  stays pending; and after a successful cancel of it, a second cancel with
  \<^verbatim>\<open>?status=pending\<close> is not found, so the answer does not name \<^verbatim>\<open>cancelled\<close>.
\<close>

theorem cancel_transition_counterexample:
  "first_booking \<in> set (booking_get_queryset demo_db 7) \<and> booking_id first_booking = 1
   \<and> status first_booking = Pending
   \<and> cancel demo_pk demo_db (Some 7) [''status'' \<mapsto> ''cancelled''] 1 = (Inl NotFound, demo_db)
   \<and> fst (cancel demo_pk demo_db (Some 7) Map.empty 1) =
       Inr (Response (MessageBody ''Booking cancelled successfully'' (first_booking\<lparr>status := Cancelled\<rparr>)) 200)
   \<and> cancel demo_pk (snd (cancel demo_pk demo_db (Some 7) Map.empty 1)) (Some 7)
        [''status'' \<mapsto> ''pending''] 1 =
       (Inl NotFound, snd (cancel demo_pk demo_db (Some 7) Map.empty 1))"
  by (simp add: demo_defs booking_view_defs Let_def)

section \<open>Owner scoping\<close>

lemma get_object_foreign:
  assumes "\<forall>b \<in> set (bookings d). booking_id b = pk \<longrightarrow> booking_user b \<noteq> u"
  shows "get_object to_pk d u query pk =
           Inl (if filter_queryset to_pk d query [] = Inr [] then NotFound else ValidationError)"
proof (cases "filter_queryset to_pk d query (booking_get_queryset d u)")
  case (Inl e)
  from filter_queryset_Inl [OF Inl, of "[]"] Inl filter_queryset_Inl [OF Inl, of "booking_get_queryset d u"]
  show ?thesis by (simp add: get_object_def)
next
  case (Inr qs)
  have "filter (\<lambda>b. booking_id b = pk) qs = []"
    unfolding filter_queryset_Inr [OF Inr] booking_get_queryset_def
    using assms by (auto simp: filter_empty_conv)
  moreover have "filter_queryset to_pk d query [] = Inr []"
    using filter_queryset_Inr_any [OF Inr, of "[]"] by simp
  ultimately show ?thesis using Inr by (simp add: get_object_def)
qed

lemma others_after_save:
  assumes "distinct (map booking_id (bookings d))" and "get_object to_pk d u query pk = Inr b"
  shows "filter (\<lambda>r. booking_user r \<noteq> u) (bookings (save d (b\<lparr>status := s\<rparr>)))
       = filter (\<lambda>r. booking_user r \<noteq> u) (bookings d)"
proof -
  have u: "booking_user b = u" and b: "b \<in> set (bookings d)"
    using get_object_Inr [OF assms(2)] by simp_all
  have "filter (\<lambda>r. booking_user r \<noteq> u) (map (\<lambda>r. if r = b then r\<lparr>status := s\<rparr> else r) bs)
      = filter (\<lambda>r. booking_user r \<noteq> u) bs" for bs
    using u by (induction bs) auto
  then show ?thesis by (simp add: save_status [OF assms(1) b])
qed

lemma view_after_save:
  assumes "distinct (map booking_id (bookings d))" and "get_object to_pk d u query pk = Inr b"
  shows "booking_get_queryset (save d (b\<lparr>status := s\<rparr>)) u
       = map (\<lambda>r. if r = b then r\<lparr>status := s\<rparr> else r) (booking_get_queryset d u)"
proof -
  have u: "booking_user b = u" and b: "b \<in> set (bookings d)"
    using get_object_Inr [OF assms(2)] by simp_all
  have "filter (\<lambda>r. booking_user r = u) (map (\<lambda>r. if r = b then r\<lparr>status := s\<rparr> else r) bs)
      = map (\<lambda>r. if r = b then r\<lparr>status := s\<rparr> else r) (filter (\<lambda>r. booking_user r = u) bs)" for bs
    using u by (induction bs) auto
  then show ?thesis by (simp add: save_status [OF assms(1) b] booking_get_queryset_def)
qed

lemma cancel_cases:
  obtains e where "get_object to_pk d u query pk = Inl e" "cancel to_pk d (Some u) query pk = (Inl e, d)"
  | b s where "get_object to_pk d u query pk = Inr b"
      "cancel to_pk d (Some u) query pk = (Inr (Response (ErrorBody s) 400), d)"
      "s = ''Cannot cancel a booking that is already '' @ status_value (status b)"
      "status b = Cancelled \<or> status b = Completed"
  | b where "get_object to_pk d u query pk = Inr b"
      "cancel to_pk d (Some u) query pk =
         (Inr (Response (MessageBody ''Booking cancelled successfully'' (b\<lparr>status := Cancelled\<rparr>)) 200),
          save d (b\<lparr>status := Cancelled\<rparr>))"
      "status b = Pending \<or> status b = Confirmed"
proof (cases "get_object to_pk d u query pk")
  case (Inl e)
  then show ?thesis using that(1) by (simp add: cancel_def)
next
  case (Inr b)
  show ?thesis
  proof (cases "status b = Cancelled \<or> status b = Completed")
    case True
    then show ?thesis using Inr that(2) [of b] by (auto simp: cancel_def)
  next
    case False
    then have "status b = Pending \<or> status b = Confirmed" by (cases "status b") auto
    then show ?thesis using Inr that(3) [of b] by (auto simp: cancel_def Let_def)
  qed
qed

lemma confirm_cases:
  obtains e where "get_object to_pk d u query pk = Inl e" "confirm to_pk d (Some u) query pk = (Inl e, d)"
  | b s where "get_object to_pk d u query pk = Inr b"
      "confirm to_pk d (Some u) query pk = (Inr (Response (ErrorBody s) 400), d)"
      "s = ''Cannot confirm a booking that is '' @ status_value (status b)"
      "status b \<noteq> Pending"
  | b where "get_object to_pk d u query pk = Inr b"
      "confirm to_pk d (Some u) query pk =
         (Inr (Response (MessageBody ''Booking confirmed successfully'' (b\<lparr>status := Confirmed\<rparr>)) 200),
          save d (b\<lparr>status := Confirmed\<rparr>))"
      "status b = Pending"
proof (cases "get_object to_pk d u query pk")
  case (Inl e)
  then show ?thesis using that(1) by (simp add: confirm_def)
next
  case (Inr b)
  show ?thesis
  proof (cases "status b = Pending")
    case False
    then show ?thesis using Inr that(2) [of b] by (auto simp: confirm_def)
  next
    case True
    then show ?thesis using Inr that(3) [of b] by (auto simp: confirm_def Let_def)
  qed
qed

lemma cancel_others_unchanged:
  assumes "distinct (map booking_id (bookings d))"
  shows "filter (\<lambda>r. booking_user r \<noteq> u) (bookings (snd (cancel to_pk d (Some u) query pk)))
       = filter (\<lambda>r. booking_user r \<noteq> u) (bookings d)"
  by (rule cancel_cases [of to_pk d u query pk]) (simp_all add: others_after_save [OF assms])

lemma confirm_others_unchanged:
  assumes "distinct (map booking_id (bookings d))"
  shows "filter (\<lambda>r. booking_user r \<noteq> u) (bookings (snd (confirm to_pk d (Some u) query pk)))
       = filter (\<lambda>r. booking_user r \<noteq> u) (bookings d)"
  by (rule confirm_cases [of to_pk d u query pk]) (simp_all add: others_after_save [OF assms])

lemma filter_queryset_listings:
  assumes "\<not> truthy (query ''listing'') \<or> listings d = listings d'"
  shows "filter_queryset to_pk d query qs = filter_queryset to_pk d' query qs"
proof -
  have "clean_listing to_pk d (query ''listing'') = clean_listing to_pk d' (query ''listing'')"
    using assms by (auto simp: clean_listing_def truthy_def split: option.splits)
  then show ?thesis by (simp add: filter_queryset_def)
qed

lemma get_object_view:
  assumes "booking_get_queryset d u = booking_get_queryset d' u"
    and "\<not> truthy (query ''listing'') \<or> listings d = listings d'"
  shows "get_object to_pk d u query pk = get_object to_pk d' u query pk"
  using assms(1)
    filter_queryset_listings [where query = query and d = d and d' = d', OF assms(2),
      of to_pk "booking_get_queryset d' u"]
  by (simp add: get_object_def)

lemma cancel_noninterference:
  assumes "distinct (map booking_id (bookings d))" and "distinct (map booking_id (bookings d'))"
    and "booking_get_queryset d u = booking_get_queryset d' u"
    and "\<not> truthy (query ''listing'') \<or> listings d = listings d'"
  shows "fst (cancel to_pk d (Some u) query pk) = fst (cancel to_pk d' (Some u) query pk)
       \<and> booking_get_queryset (snd (cancel to_pk d (Some u) query pk)) u
         = booking_get_queryset (snd (cancel to_pk d' (Some u) query pk)) u"
proof -
  note g = get_object_view [where query = query and d = d and d' = d', OF assms(3,4), of to_pk pk]
  show ?thesis
  proof (cases "get_object to_pk d u query pk")
    case (Inl e)
    then show ?thesis using g assms(3) by (simp add: cancel_def)
  next
    case (Inr b)
    then have Inr': "get_object to_pk d' u query pk = Inr b" using g by simp
    show ?thesis
      using Inr Inr' assms(3)
        view_after_save [OF assms(1) Inr, of Cancelled] view_after_save [OF assms(2) Inr', of Cancelled]
      by (simp add: cancel_def Let_def)
  qed
qed

lemma confirm_noninterference:
  assumes "distinct (map booking_id (bookings d))" and "distinct (map booking_id (bookings d'))"
    and "booking_get_queryset d u = booking_get_queryset d' u"
    and "\<not> truthy (query ''listing'') \<or> listings d = listings d'"
  shows "fst (confirm to_pk d (Some u) query pk) = fst (confirm to_pk d' (Some u) query pk)
       \<and> booking_get_queryset (snd (confirm to_pk d (Some u) query pk)) u
         = booking_get_queryset (snd (confirm to_pk d' (Some u) query pk)) u"
proof -
  note g = get_object_view [where query = query and d = d and d' = d', OF assms(3,4), of to_pk pk]
  show ?thesis
  proof (cases "get_object to_pk d u query pk")
    case (Inl e)
    then show ?thesis using g assms(3) by (simp add: confirm_def)
  next
    case (Inr b)
    then have Inr': "get_object to_pk d' u query pk = Inr b" using g by simp
    show ?thesis
      using Inr Inr' assms(3)
        view_after_save [OF assms(1) Inr, of Confirmed] view_after_save [OF assms(2) Inr', of Confirmed]
      by (simp add: confirm_def Let_def)
  qed
qed

text \<open>
  C9. For a user \<open>u\<close> and any request parameters: the queryset and \<open>get_object\<close> yield
  bookings of \<open>u\<close> only; a primary key that is no booking of \<open>u\<close> is answered by
  retrieve, cancel and confirm as a key that does not exist is, not found (or, on an
  invalid filter value, the validation error that any key gets), with the database
  unchanged; cancel and confirm by \<open>u\<close> leave the rows of every other user as they
  were; and on two databases that hold the same bookings of \<open>u\<close>, whatever the other
  rows are, list, retrieve, cancel and confirm answer \<open>u\<close> the same and leave the same
  bookings of \<open>u\<close> behind. The primary key is unique in both databases; a request that
  filters by listing is compared on databases with the same listings.
\<close>

theorem owner_scoping:
  assumes "distinct (map booking_id (bookings d))" and "distinct (map booking_id (bookings d'))"
    and "booking_get_queryset d u = booking_get_queryset d' u"
    and "\<not> truthy (query ''listing'') \<or> listings d = listings d'"
  shows "list_all (\<lambda>b. booking_user b = u) (booking_get_queryset d u)
     \<and> (case get_object to_pk d u query pk of
          Inl e \<Rightarrow> e = NotFound \<or> e = ValidationError
        | Inr b \<Rightarrow> booking_user b = u \<and> booking_id b = pk)
     \<and> (\<not> list_ex (\<lambda>b. booking_id b = pk \<and> booking_user b = u) (bookings d) \<longrightarrow>
          booking_retrieve to_pk d (Some u) query pk =
            Inl (if filter_queryset to_pk d query [] = Inr [] then NotFound else ValidationError)
          \<and> cancel to_pk d (Some u) query pk =
            (Inl (if filter_queryset to_pk d query [] = Inr [] then NotFound else ValidationError), d)
          \<and> confirm to_pk d (Some u) query pk =
            (Inl (if filter_queryset to_pk d query [] = Inr [] then NotFound else ValidationError), d))
     \<and> (\<not> truthy (query ''status'') \<and> \<not> truthy (query ''listing'') \<longrightarrow>
          filter_queryset to_pk d query [] = Inr [])
     \<and> filter (\<lambda>r. booking_user r \<noteq> u) (bookings (snd (cancel to_pk d (Some u) query pk)))
       = filter (\<lambda>r. booking_user r \<noteq> u) (bookings d)
     \<and> filter (\<lambda>r. booking_user r \<noteq> u) (bookings (snd (confirm to_pk d (Some u) query pk)))
       = filter (\<lambda>r. booking_user r \<noteq> u) (bookings d)
     \<and> booking_list to_pk render d (Some u) query = booking_list to_pk render d' (Some u) query
     \<and> booking_retrieve to_pk d (Some u) query pk = booking_retrieve to_pk d' (Some u) query pk
     \<and> fst (cancel to_pk d (Some u) query pk) = fst (cancel to_pk d' (Some u) query pk)
     \<and> fst (confirm to_pk d (Some u) query pk) = fst (confirm to_pk d' (Some u) query pk)
     \<and> booking_get_queryset (snd (cancel to_pk d (Some u) query pk)) u
       = booking_get_queryset (snd (cancel to_pk d' (Some u) query pk)) u
     \<and> booking_get_queryset (snd (confirm to_pk d (Some u) query pk)) u
       = booking_get_queryset (snd (confirm to_pk d' (Some u) query pk)) u"
proof -
  have 1: "list_all (\<lambda>b. booking_user b = u) (booking_get_queryset d u)"
    by (simp add: booking_get_queryset_def list_all_iff)
  have 2: "(case get_object to_pk d u query pk of
          Inl e \<Rightarrow> e = NotFound \<or> e = ValidationError
        | Inr b \<Rightarrow> booking_user b = u \<and> booking_id b = pk)"
  proof (cases "get_object to_pk d u query pk")
    case (Inl e)
    then show ?thesis
      by (auto simp: get_object_def dest: filter_queryset_Inl split: sum.splits list.splits)
  next
    case (Inr b)
    then show ?thesis using get_object_Inr [OF Inr] by simp
  qed
  have 3: "\<not> list_ex (\<lambda>b. booking_id b = pk \<and> booking_user b = u) (bookings d) \<longrightarrow>
          booking_retrieve to_pk d (Some u) query pk =
            Inl (if filter_queryset to_pk d query [] = Inr [] then NotFound else ValidationError)
          \<and> cancel to_pk d (Some u) query pk =
            (Inl (if filter_queryset to_pk d query [] = Inr [] then NotFound else ValidationError), d)
          \<and> confirm to_pk d (Some u) query pk =
            (Inl (if filter_queryset to_pk d query [] = Inr [] then NotFound else ValidationError), d)"
  proof
    assume "\<not> list_ex (\<lambda>b. booking_id b = pk \<and> booking_user b = u) (bookings d)"
    then have "\<forall>b \<in> set (bookings d). booking_id b = pk \<longrightarrow> booking_user b \<noteq> u"
      by (auto simp: list_ex_iff)
    from get_object_foreign [OF this, of to_pk query]
    show "booking_retrieve to_pk d (Some u) query pk =
            Inl (if filter_queryset to_pk d query [] = Inr [] then NotFound else ValidationError)
          \<and> cancel to_pk d (Some u) query pk =
            (Inl (if filter_queryset to_pk d query [] = Inr [] then NotFound else ValidationError), d)
          \<and> confirm to_pk d (Some u) query pk =
            (Inl (if filter_queryset to_pk d query [] = Inr [] then NotFound else ValidationError), d)"
      by (simp add: booking_retrieve_def cancel_def confirm_def)
  qed
  have 4: "\<not> truthy (query ''status'') \<and> \<not> truthy (query ''listing'') \<longrightarrow>
          filter_queryset to_pk d query [] = Inr []"
    by (simp add: filter_queryset_unfiltered)
  have 6: "booking_list to_pk render d (Some u) query = booking_list to_pk render d' (Some u) query"
    using assms(3)
      filter_queryset_listings [where query = query and d = d and d' = d', OF assms(4),
        of to_pk "booking_get_queryset d' u"]
    by (simp add: booking_list_def)
  have 7: "booking_retrieve to_pk d (Some u) query pk = booking_retrieve to_pk d' (Some u) query pk"
    using get_object_view [where query = query and d = d and d' = d', OF assms(3,4), of to_pk pk]
    by (simp add: booking_retrieve_def)
  note c = cancel_noninterference [where query = query and d = d and d' = d', OF assms, of to_pk pk]
  note f = confirm_noninterference [where query = query and d = d and d' = d', OF assms, of to_pk pk]
  show ?thesis
    by (intro conjI)
      (rule 1, rule 2, rule 3, rule 4,
       rule cancel_others_unchanged [OF assms(1)], rule confirm_others_unchanged [OF assms(1)],
       rule 6, rule 7, rule conjunct1 [OF c], rule conjunct1 [OF f],
       rule conjunct2 [OF c], rule conjunct2 [OF f])
qed

theorem owner_scoping_witness:
  "booking_get_queryset demo_db 7 = [first_booking]
   \<and> booking_get_queryset other_db 7 = [first_booking]
   \<and> cancel demo_pk demo_db (Some 7) Map.empty 2 = (Inl NotFound, demo_db)
   \<and> confirm demo_pk demo_db (Some 7) Map.empty 2 = (Inl NotFound, demo_db)
   \<and> booking_retrieve demo_pk demo_db (Some 7) Map.empty 2 = Inl NotFound
   \<and> fst (cancel demo_pk demo_db (Some 7) [''listing'' \<mapsto> ''1''] 1)
       = fst (cancel demo_pk other_db (Some 7) [''listing'' \<mapsto> ''1''] 1)
   \<and> filter (\<lambda>r. booking_user r \<noteq> 7) (bookings (snd (cancel demo_pk demo_db (Some 7) Map.empty 1)))
       = [second_booking]"
  using owner_scoping [where d = demo_db and d' = other_db and u = 7 and query = Map.empty
      and to_pk = demo_pk and pk = 2]
    owner_scoping [where d = demo_db and d' = other_db and u = 7 and query = Map.empty
      and to_pk = demo_pk and pk = 1]
    owner_scoping [where d = demo_db and d' = other_db and u = 7
      and query = "[''listing'' \<mapsto> ''1'']" and to_pk = demo_pk and pk = 1]
  by (simp add: demo_defs other_db_def booking_view_defs truthy_def)

section \<open>Creating a booking\<close>

lemma isAvailable_iff:
  "isAvailable d lid check_in check_out \<longleftrightarrow>
     \<not> (\<exists>b \<in> set (bookings d). booking_listing_id b = lid
           \<and> (status b = Pending \<or> status b = Confirmed)
           \<and> check_in_date b < check_out \<and> check_out_date b > check_in)"
  by (simp add: isAvailable_def list_ex_iff)

lemma isAvailable_overlapping:
  "isAvailable d lid check_in check_out \<longleftrightarrow> lid \<notin> set (overlapping_bookings d check_in check_out)"
  by (simp add: isAvailable_iff in_overlapping_bookings)

lemma non_terminal: "status b \<noteq> Cancelled \<and> status b \<noteq> Completed \<longleftrightarrow> status b = Pending \<or> status b = Confirmed"
  by (cases "status b") auto

lemma createBooking_success:
  assumes "check_in < check_out" and "l \<in> set (listings d)" and "is_active l"
    and "isAvailable d (listing_id l) check_in check_out"
  shows "createBooking d (Some u) (listing_id l) check_in check_out =
          (let b = \<lparr>booking_id = next_booking_id d, booking_listing_id = listing_id l,
                     booking_user = u, check_in_date = check_in, check_out_date = check_out,
                     status = Pending\<rparr>
           in (Inr b, d\<lparr>bookings := bookings d @ [b], next_booking_id := Suc (next_booking_id d)\<rparr>))"
proof -
  have "list_ex (\<lambda>x. listing_id x = listing_id l \<and> is_active x) (listings d)"
    using assms(2,3) by (auto simp: list_ex_iff)
  then show ?thesis
    using assms(1,4) by (simp add: createBooking_def perform_create_def Let_def)
qed

lemma createBooking_conflict:
  assumes "check_in < check_out" and "l \<in> set (listings d)" and "is_active l"
    and "\<not> isAvailable d (listing_id l) check_in check_out"
  shows "createBooking d (Some u) (listing_id l) check_in check_out = (Inl Conflict, d)"
proof -
  have "list_ex (\<lambda>x. listing_id x = listing_id l \<and> is_active x) (listings d)"
    using assms(2,3) by (auto simp: list_ex_iff)
  then show ?thesis
    using assms(1,4) by (simp add: createBooking_def)
qed


text \<open>
  C3. For an active listing, an authenticated actor and \<open>check_in < check_out\<close>:
  \<open>createBooking\<close> appends a pending booking owned by the actor, with the requested
  listing and dates, when no booking of the listing that is neither cancelled nor
  completed overlaps the interval; it fails with \<open>Conflict\<close>, leaving the database as it
  was, when a pending or confirmed booking of the listing overlaps it. In particular,
  when \<open>get_queryset\<close> for these dates leaves the listing out, \<open>createBooking\<close> fails with
  \<open>Conflict\<close>.
\<close>

theorem createBooking_validates:
  assumes "check_in < check_out" and "l \<in> set (listings d)" and "is_active l"
  shows "(\<not> (\<exists>b \<in> set (bookings d). booking_listing_id b = listing_id l
                \<and> status b \<noteq> Cancelled \<and> status b \<noteq> Completed
                \<and> check_in_date b < check_out \<and> check_out_date b > check_in) \<longrightarrow>
          createBooking d (Some u) (listing_id l) check_in check_out =
            (let b = \<lparr>booking_id = next_booking_id d, booking_listing_id = listing_id l,
                       booking_user = u, check_in_date = check_in, check_out_date = check_out,
                       status = Pending\<rparr>
             in (Inr b, d\<lparr>bookings := bookings d @ [b], next_booking_id := Suc (next_booking_id d)\<rparr>)))
       \<and> ((\<exists>b \<in> set (bookings d). booking_listing_id b = listing_id l
                \<and> (status b = Pending \<or> status b = Confirmed)
                \<and> check_in_date b < check_out \<and> check_out_date b > check_in) \<longrightarrow>
          createBooking d (Some u) (listing_id l) check_in check_out = (Inl Conflict, d))
       \<and> (\<forall>to_decimal to_date query ci co qs.
            query ''min_price'' = None \<and> query ''max_price'' = None
            \<and> query ''check_in_date'' = Some ci \<and> query ''check_out_date'' = Some co
            \<and> ci \<noteq> [] \<and> co \<noteq> [] \<and> to_date ci = Some check_in \<and> to_date co = Some check_out
            \<and> listing_get_queryset to_decimal to_date d query = Inr qs \<and> l \<notin> set qs \<longrightarrow>
          createBooking d (Some u) (listing_id l) check_in check_out = (Inl Conflict, d))"
proof (intro conjI impI allI)
  assume "\<not> (\<exists>b \<in> set (bookings d). booking_listing_id b = listing_id l
                \<and> status b \<noteq> Cancelled \<and> status b \<noteq> Completed
                \<and> check_in_date b < check_out \<and> check_out_date b > check_in)"
  then have "isAvailable d (listing_id l) check_in check_out"
    unfolding isAvailable_iff using non_terminal by blast
  from createBooking_success [OF assms this]
  show "createBooking d (Some u) (listing_id l) check_in check_out =
            (let b = \<lparr>booking_id = next_booking_id d, booking_listing_id = listing_id l,
                       booking_user = u, check_in_date = check_in, check_out_date = check_out,
                       status = Pending\<rparr>
             in (Inr b, d\<lparr>bookings := bookings d @ [b], next_booking_id := Suc (next_booking_id d)\<rparr>))" .
next
  assume "\<exists>b \<in> set (bookings d). booking_listing_id b = listing_id l
                \<and> (status b = Pending \<or> status b = Confirmed)
                \<and> check_in_date b < check_out \<and> check_out_date b > check_in"
  then have "\<not> isAvailable d (listing_id l) check_in check_out"
    by (simp add: isAvailable_iff)
  from createBooking_conflict [OF assms this]
  show "createBooking d (Some u) (listing_id l) check_in check_out = (Inl Conflict, d)" .
next
  fix to_decimal :: "string \<Rightarrow> rat option" and to_date :: "string \<Rightarrow> date option"
    and query :: query_params and ci co qs
  assume a: "query ''min_price'' = None \<and> query ''max_price'' = None
            \<and> query ''check_in_date'' = Some ci \<and> query ''check_out_date'' = Some co
            \<and> ci \<noteq> [] \<and> co \<noteq> [] \<and> to_date ci = Some check_in \<and> to_date co = Some check_out
            \<and> listing_get_queryset to_decimal to_date d query = Inr qs \<and> l \<notin> set qs"
  then have "qs = filter (\<lambda>l. \<not> (\<exists>b \<in> set (bookings d).
                                  booking_listing_id b = listing_id l
                                  \<and> (status b = Pending \<or> status b = Confirmed)
                                  \<and> check_in_date b < check_out \<and> check_out_date b > check_in))
                  (listing_queryset d)"
    using get_queryset_with_dates [of query ci co to_date check_in check_out to_decimal d] by simp
  moreover have "l \<in> set (listing_queryset d)"
    using assms(2,3) by (simp add: listing_queryset_def)
  ultimately have "\<not> isAvailable d (listing_id l) check_in check_out"
    using a by (auto simp: isAvailable_iff)
  from createBooking_conflict [OF assms this]
  show "createBooking d (Some u) (listing_id l) check_in check_out = (Inl Conflict, d)" .
qed

theorem createBooking_validates_witness:
  "createBooking demo_db (Some 9) 1 (2024, 6, 3) (2024, 6, 7) = (Inl Conflict, demo_db)
   \<and> listing_get_queryset demo_decimal demo_dates demo_db
        [''check_in_date'' \<mapsto> ''2024-06-03'', ''check_out_date'' \<mapsto> ''2024-06-07''] = Inr [city_flat]
   \<and> createBooking demo_db (Some 9) 1 (2024, 6, 5) (2024, 6, 10) =
       (Inr \<lparr>booking_id = 3, booking_listing_id = 1, booking_user = 9,
              check_in_date = (2024, 6, 5), check_out_date = (2024, 6, 10), status = Pending\<rparr>,
        demo_db\<lparr>bookings := [first_booking, second_booking,
             \<lparr>booking_id = 3, booking_listing_id = 1, booking_user = 9,
              check_in_date = (2024, 6, 5), check_out_date = (2024, 6, 10), status = Pending\<rparr>],
           next_booking_id := 4\<rparr>)
   \<and> createBooking demo_db (Some 9) 2 (2024, 6, 3) (2024, 6, 7) =
       (Inr \<lparr>booking_id = 3, booking_listing_id = 2, booking_user = 9,
              check_in_date = (2024, 6, 3), check_out_date = (2024, 6, 7), status = Pending\<rparr>,
        demo_db\<lparr>bookings := [first_booking, second_booking,
             \<lparr>booking_id = 3, booking_listing_id = 2, booking_user = 9,
              check_in_date = (2024, 6, 3), check_out_date = (2024, 6, 7), status = Pending\<rparr>],
           next_booking_id := 4\<rparr>)"
  using createBooking_validates [of "(2024, 6, 3)" "(2024, 6, 7)" beach_house demo_db 9]
    createBooking_validates [of "(2024, 6, 5)" "(2024, 6, 10)" beach_house demo_db 9]
    createBooking_validates [of "(2024, 6, 3)" "(2024, 6, 7)" city_flat demo_db 9]
  by (simp add: demo_defs listing_view_defs createBooking_def perform_create_def isAvailable_def Let_def)


lemma createBooking_Inr:
  assumes "createBooking d actor lid check_in check_out = (Inr a, d1)"
  shows "\<exists>u. actor = Some u \<and> check_in < check_out
           \<and> list_ex (\<lambda>l. listing_id l = lid \<and> is_active l) (listings d)
           \<and> isAvailable d lid check_in check_out
           \<and> a = \<lparr>booking_id = next_booking_id d, booking_listing_id = lid, booking_user = u,
                   check_in_date = check_in, check_out_date = check_out, status = Pending\<rparr>
           \<and> d1 = d\<lparr>bookings := bookings d @ [a], next_booking_id := Suc (next_booking_id d)\<rparr>"
  using assms
  by (auto simp: createBooking_def perform_create_def Let_def split: option.splits if_splits)

lemma fresh_id_filter:
  "pk_ok d \<Longrightarrow> filter (\<lambda>b. booking_id b = next_booking_id d) (bookings d) = []"
  by (auto simp: pk_ok_def list_all_iff filter_empty_conv)

lemma fresh_id_map:
  "pk_ok d \<Longrightarrow> map (\<lambda>r. if booking_id r = next_booking_id d then x else r) (bookings d) = bookings d"
  by (rule map_idI) (auto simp: pk_ok_def list_all_iff)


text \<open>
  C8. When \<open>createBooking\<close> has created the booking \<open>a\<close> and its owner cancels it, with
  a request whose filter parameters admit \<open>a\<close> (a request without such parameters
  does), the cancel succeeds and only marks \<open>a\<close> cancelled; afterwards the listing is
  available for the same dates, \<open>get_queryset\<close> for these dates returns it, and
  \<open>createBooking\<close> for the same listing and dates succeeds for any user.
\<close>

theorem cancellation_frees_capacity:
  assumes "pk_ok d" and "createBooking d (Some u) lid check_in check_out = (Inr a, d1)"
    and "(\<not> truthy (request ''status'') \<and> \<not> truthy (request ''listing''))
         \<or> filter_queryset to_pk d1 request [a] = Inr [a]"
  shows "cancel to_pk d1 (Some u) request (booking_id a) =
           (Inr (Response (MessageBody ''Booking cancelled successfully'' (a\<lparr>status := Cancelled\<rparr>)) 200),
            d1\<lparr>bookings := bookings d @ [a\<lparr>status := Cancelled\<rparr>]\<rparr>)
       \<and> (let d2 = snd (cancel to_pk d1 (Some u) request (booking_id a)) in
            isAvailable d2 lid check_in check_out
          \<and> (\<forall>to_decimal to_date query ci co.
                query ''min_price'' = None \<and> query ''max_price'' = None
                \<and> query ''check_in_date'' = Some ci \<and> query ''check_out_date'' = Some co
                \<and> ci \<noteq> [] \<and> co \<noteq> [] \<and> to_date ci = Some check_in \<and> to_date co = Some check_out \<longrightarrow>
                (\<exists>qs. listing_get_queryset to_decimal to_date d2 query = Inr qs
                      \<and> list_ex (\<lambda>l. listing_id l = lid) qs))
          \<and> createBooking d2 (Some v) lid check_in check_out =
              (let b = \<lparr>booking_id = next_booking_id d2, booking_listing_id = lid, booking_user = v,
                         check_in_date = check_in, check_out_date = check_out, status = Pending\<rparr>
               in (Inr b, d2\<lparr>bookings := bookings d2 @ [b],
                              next_booking_id := Suc (next_booking_id d2)\<rparr>)))"
proof -
  let ?a' = "a\<lparr>status := Cancelled\<rparr>"
  let ?d2 = "d1\<lparr>bookings := bookings d @ [?a']\<rparr>"
  from createBooking_Inr [OF assms(2)]
  have dates: "check_in < check_out"
    and active: "list_ex (\<lambda>l. listing_id l = lid \<and> is_active l) (listings d)"
    and free: "isAvailable d lid check_in check_out"
    and a: "a = \<lparr>booking_id = next_booking_id d, booking_listing_id = lid, booking_user = u,
                   check_in_date = check_in, check_out_date = check_out, status = Pending\<rparr>"
    and d1: "d1 = d\<lparr>bookings := bookings d @ [a], next_booking_id := Suc (next_booking_id d)\<rparr>"
    by auto
  have id: "booking_id a = next_booking_id d" and usr: "booking_user a = u"
    and st: "status a = Pending"
    by (simp_all add: a)
  have adm: "filter_queryset to_pk d1 request [a] = Inr [a]"
    using assms(3) filter_queryset_unfiltered [of request to_pk d1 "[a]"] by blast
  have "distinct (map booking_id (bookings d1))" and "a \<in> set (bookings d1)"
    using assms(1) by (auto simp: pk_ok_def list_all_iff d1 id)
  from get_object_admitted [OF this usr refl adm]
  have obj: "get_object to_pk d1 u request (booking_id a) = Inr a" .
  have sv: "save d1 ?a' = ?d2"
    using fresh_id_map [OF assms(1), of ?a'] by (simp add: save_def d1 id)
  have c: "cancel to_pk d1 (Some u) request (booking_id a) =
           (Inr (Response (MessageBody ''Booking cancelled successfully'' ?a') 200), ?d2)"
    using sv by (simp add: cancel_def obj st Let_def)
  have free2: "isAvailable ?d2 lid check_in check_out"
    using free by (simp add: isAvailable_def)
  have active2: "list_ex (\<lambda>l. listing_id l = lid \<and> is_active l) (listings ?d2)"
    using active by (simp add: d1)
  have search: "\<exists>qs. listing_get_queryset to_decimal to_date ?d2 query = Inr qs
                      \<and> list_ex (\<lambda>l. listing_id l = lid) qs"
    if q: "query ''min_price'' = None \<and> query ''max_price'' = None
                \<and> query ''check_in_date'' = Some ci \<and> query ''check_out_date'' = Some co
                \<and> ci \<noteq> [] \<and> co \<noteq> [] \<and> to_date ci = Some check_in \<and> to_date co = Some check_out"
    for to_decimal :: "string \<Rightarrow> rat option" and to_date :: "string \<Rightarrow> date option"
      and query :: query_params and ci co
  proof -
    from active2 obtain l where l: "l \<in> set (listings ?d2)" "listing_id l = lid" "is_active l"
      by (auto simp: list_ex_iff)
    have "listing_get_queryset to_decimal to_date ?d2 query =
           Inr (filter (\<lambda>l. \<not> (\<exists>b \<in> set (bookings ?d2).
                                  booking_listing_id b = listing_id l
                                  \<and> (status b = Pending \<or> status b = Confirmed)
                                  \<and> check_in_date b < check_out \<and> check_out_date b > check_in))
                  (listing_queryset ?d2))"
      using q get_queryset_with_dates [of query ci co to_date check_in check_out to_decimal ?d2]
      by blast
    moreover have "l \<in> set (filter (\<lambda>l. \<not> (\<exists>b \<in> set (bookings ?d2).
                                  booking_listing_id b = listing_id l
                                  \<and> (status b = Pending \<or> status b = Confirmed)
                                  \<and> check_in_date b < check_out \<and> check_out_date b > check_in))
                  (listing_queryset ?d2))"
      using l free2 unfolding isAvailable_iff listing_queryset_def by simp
    ultimately show ?thesis using l(2) by (auto simp: list_ex_iff)
  qed
  have again: "createBooking ?d2 (Some v) lid check_in check_out =
              (let b = \<lparr>booking_id = next_booking_id ?d2, booking_listing_id = lid, booking_user = v,
                         check_in_date = check_in, check_out_date = check_out, status = Pending\<rparr>
               in (Inr b, ?d2\<lparr>bookings := bookings ?d2 @ [b],
                              next_booking_id := Suc (next_booking_id ?d2)\<rparr>))"
    using dates active2 free2 by (simp add: createBooking_def perform_create_def Let_def)
  have snd: "snd (cancel to_pk d1 (Some u) request (booking_id a)) = ?d2" by (simp add: c)
  have body: "isAvailable ?d2 lid check_in check_out
          \<and> (\<forall>to_decimal to_date query ci co.
                query ''min_price'' = None \<and> query ''max_price'' = None
                \<and> query ''check_in_date'' = Some ci \<and> query ''check_out_date'' = Some co
                \<and> ci \<noteq> [] \<and> co \<noteq> [] \<and> to_date ci = Some check_in \<and> to_date co = Some check_out \<longrightarrow>
                (\<exists>qs. listing_get_queryset to_decimal to_date ?d2 query = Inr qs
                      \<and> list_ex (\<lambda>l. listing_id l = lid) qs))
          \<and> createBooking ?d2 (Some v) lid check_in check_out =
              (let b = \<lparr>booking_id = next_booking_id ?d2, booking_listing_id = lid, booking_user = v,
                         check_in_date = check_in, check_out_date = check_out, status = Pending\<rparr>
               in (Inr b, ?d2\<lparr>bookings := bookings ?d2 @ [b],
                              next_booking_id := Suc (next_booking_id ?d2)\<rparr>))"
    by (intro conjI allI impI) (rule free2, rule search, assumption, rule again)
  show ?thesis
    unfolding snd Let_def [of ?d2] by (rule conjI [OF c body])
qed

theorem cancellation_frees_capacity_witness:
  "pk_ok empty_demo
   \<and> createBooking empty_demo (Some 7) 1 (2024, 6, 1) (2024, 6, 5) =
       (Inr first_booking, empty_demo\<lparr>bookings := [first_booking], next_booking_id := 2\<rparr>)
   \<and> cancel demo_pk (empty_demo\<lparr>bookings := [first_booking], next_booking_id := 2\<rparr>) (Some 7)
        Map.empty 1 =
       (Inr (Response (MessageBody ''Booking cancelled successfully'' (first_booking\<lparr>status := Cancelled\<rparr>)) 200),
        empty_demo\<lparr>bookings := [first_booking\<lparr>status := Cancelled\<rparr>], next_booking_id := 2\<rparr>)
   \<and> createBooking (empty_demo\<lparr>bookings := [first_booking\<lparr>status := Cancelled\<rparr>], next_booking_id := 2\<rparr>)
        (Some 8) 1 (2024, 6, 1) (2024, 6, 5) =
       (Inr \<lparr>booking_id = 2, booking_listing_id = 1, booking_user = 8,
              check_in_date = (2024, 6, 1), check_out_date = (2024, 6, 5), status = Pending\<rparr>,
        empty_demo\<lparr>bookings := [first_booking\<lparr>status := Cancelled\<rparr>,
            \<lparr>booking_id = 2, booking_listing_id = 1, booking_user = 8,
              check_in_date = (2024, 6, 1), check_out_date = (2024, 6, 5), status = Pending\<rparr>],
          next_booking_id := 3\<rparr>)"
  using cancellation_frees_capacity [where d = empty_demo and u = 7 and lid = 1
      and check_in = "(2024, 6, 1)" and check_out = "(2024, 6, 5)" and a = first_booking
      and ?d1.0 = "empty_demo\<lparr>bookings := [first_booking], next_booking_id := 2\<rparr>"
      and request = Map.empty and to_pk = demo_pk and v = 8]
  by (simp add: demo_defs empty_demo_def empty_db_def pk_ok_def booking_view_defs
      createBooking_def perform_create_def isAvailable_def Let_def truthy_def)



section \<open>No double booking\<close>

lemma no_double_booking_append:
  "no_double_booking (bs @ [b]) \<longleftrightarrow> no_double_booking bs \<and> list_all (\<lambda>c. \<not> double_booked c b) bs"
  by (induction bs) auto

lemma no_double_booking_pairs:
  "no_double_booking bs \<longleftrightarrow>
     (\<forall>i j. i < j \<and> j < length bs \<longrightarrow> \<not> double_booked (bs ! i) (bs ! j))"
proof (induction bs)
  case Nil
  then show ?case by simp
next
  case (Cons b bs)
  have "(\<forall>i j. i < j \<and> j < length (b # bs) \<longrightarrow> \<not> double_booked ((b # bs) ! i) ((b # bs) ! j))
      \<longleftrightarrow> (\<forall>j < length bs. \<not> double_booked b (bs ! j))
        \<and> (\<forall>i j. i < j \<and> j < length bs \<longrightarrow> \<not> double_booked (bs ! i) (bs ! j))"
    (is "?L \<longleftrightarrow> ?A \<and> ?B")
  proof
    assume l: ?L
    have ?A
    proof (intro allI impI)
      fix j assume "j < length bs"
      with l [rule_format, of 0 "Suc j"] show "\<not> double_booked b (bs ! j)" by simp
    qed
    moreover have ?B
    proof (intro allI impI)
      fix i j assume "i < j \<and> j < length bs"
      with l [rule_format, of "Suc i" "Suc j"] show "\<not> double_booked (bs ! i) (bs ! j)" by simp
    qed
    ultimately show "?A \<and> ?B" ..
  next
    assume r: "?A \<and> ?B"
    show ?L
    proof (intro allI impI)
      fix i j assume ij: "i < j \<and> j < length (b # bs)"
      then obtain j' where j': "j = Suc j'" "j' < length bs" by (cases j) auto
      show "\<not> double_booked ((b # bs) ! i) ((b # bs) ! j)"
      proof (cases i)
        case 0
        then show ?thesis using r j' by simp
      next
        case (Suc i')
        then show ?thesis using r j' ij by simp
      qed
    qed
  qed
  moreover have "list_all (\<lambda>c. \<not> double_booked b c) bs \<longleftrightarrow> (\<forall>j < length bs. \<not> double_booked b (bs ! j))"
    by (simp add: list_all_length)
  ultimately show ?case using Cons.IH by simp
qed

lemma double_booked_status:
  assumes "s = Pending \<or> s = Confirmed \<longrightarrow> blocking b"
    and "double_booked (if r = b then r\<lparr>status := s\<rparr> else r) (if c = b then c\<lparr>status := s\<rparr> else c)"
  shows "double_booked r c"
proof -
  let ?g = "\<lambda>x. if x = b then x\<lparr>status := s\<rparr> else x"
  have l: "booking_listing_id (?g x) = booking_listing_id x" for x by simp
  have ci: "check_in_date (?g x) = check_in_date x" for x by simp
  have co: "check_out_date (?g x) = check_out_date x" for x by simp
  have bl: "blocking x" if "blocking (?g x)" for x
  proof (cases "x = b")
    case True
    with that have "s = Pending \<or> s = Confirmed" by (simp add: blocking_def)
    with assms(1) True show ?thesis by simp
  next
    case False
    with that show ?thesis by simp
  qed
  from assms(2) have "booking_listing_id (?g r) = booking_listing_id (?g c)"
    and "blocking (?g r)" and "blocking (?g c)"
    and "check_in_date (?g r) < check_out_date (?g c)"
    and "check_in_date (?g c) < check_out_date (?g r)"
    unfolding double_booked_def overlaps_def by blast+
  then show ?thesis
    unfolding double_booked_def overlaps_def l ci co using bl by blast
qed

lemma no_double_booking_status:
  assumes "no_double_booking bs" and "s = Pending \<or> s = Confirmed \<longrightarrow> blocking b"
  shows "no_double_booking (map (\<lambda>r. if r = b then r\<lparr>status := s\<rparr> else r) bs)"
  using assms(1)
proof (induction bs)
  case Nil
  then show ?case by simp
next
  case (Cons r bs)
  let ?g = "\<lambda>x. if x = b then x\<lparr>status := s\<rparr> else x"
  from Cons.prems have r: "list_all (\<lambda>c. \<not> double_booked r c) bs" and "no_double_booking bs"
    by simp_all
  then have tl: "no_double_booking (map ?g bs)" using Cons.IH by blast
  have "\<not> double_booked (?g r) c'" if "c' \<in> set (map ?g bs)" for c'
  proof -
    from that obtain c where c: "c \<in> set bs" "c' = ?g c" by (auto simp only: set_map)
    from r c(1) have "\<not> double_booked r c" by (simp add: list_all_iff)
    with double_booked_status [OF assms(2), of r c] show ?thesis unfolding c(2) by blast
  qed
  then have "list_all (\<lambda>c. \<not> double_booked (?g r) c) (map ?g bs)"
    unfolding list_all_iff by blast
  with tl show ?case
    by (simp only: list.map no_double_booking.simps simp_thms)
qed

lemma pk_ok_save:
  assumes "pk_ok d" and "get_object to_pk d u query pk = Inr b"
  shows "pk_ok (save d (b\<lparr>status := s\<rparr>))"
proof -
  have d: "distinct (map booking_id (bookings d))" using assms(1) by (simp add: pk_ok_def)
  have b: "b \<in> set (bookings d)" using get_object_Inr [OF assms(2)] by simp
  let ?g = "\<lambda>r. if r = b then r\<lparr>status := s\<rparr> else r"
  have "map booking_id (map ?g (bookings d)) = map booking_id (bookings d)"
    unfolding map_map by (rule map_cong) auto
  then have 1: "distinct (map booking_id (map ?g (bookings d)))"
    using d by (simp only:)
  have 2: "list_all (\<lambda>b. booking_id b < next_booking_id d) (map ?g (bookings d))"
    using assms(1) by (auto simp: pk_ok_def list_all_iff)
  show ?thesis
    unfolding pk_ok_def save_status [OF d b] using 1 2 by simp
qed

lemma no_double_booking_save:
  assumes "pk_ok d" and "get_object to_pk d u query pk = Inr b" and "no_double_booking (bookings d)"
    and "s = Pending \<or> s = Confirmed \<longrightarrow> blocking b"
  shows "no_double_booking (bookings (save d (b\<lparr>status := s\<rparr>)))"
proof -
  have d: "distinct (map booking_id (bookings d))" using assms(1) by (simp add: pk_ok_def)
  have b: "b \<in> set (bookings d)" using get_object_Inr [OF assms(2)] by simp
  show ?thesis
    using no_double_booking_status [OF assms(3,4)] by (simp add: save_status [OF d b])
qed

lemma cancel_invariant:
  assumes "pk_ok d" and "no_double_booking (bookings d)"
  shows "pk_ok (snd (cancel to_pk d user query pk))
       \<and> no_double_booking (bookings (snd (cancel to_pk d user query pk)))"
proof (cases user)
  case None
  then show ?thesis using assms by (simp add: cancel_def)
next
  case (Some u)
  show ?thesis
    unfolding Some
    by (rule cancel_cases [of to_pk d u query pk])
      (use assms in \<open>simp_all add: pk_ok_save no_double_booking_save\<close>)
qed

lemma confirm_invariant:
  assumes "pk_ok d" and "no_double_booking (bookings d)"
  shows "pk_ok (snd (confirm to_pk d user query pk))
       \<and> no_double_booking (bookings (snd (confirm to_pk d user query pk)))"
proof (cases user)
  case None
  then show ?thesis using assms by (simp add: confirm_def)
next
  case (Some u)
  show ?thesis
    unfolding Some
    by (rule confirm_cases [of to_pk d u query pk])
      (use assms in \<open>simp_all add: pk_ok_save no_double_booking_save blocking_def\<close>)
qed

lemma createBooking_cases:
  obtains e where "createBooking d actor lid check_in check_out = (Inl e, d)"
  | a d1 where "createBooking d actor lid check_in check_out = (Inr a, d1)"
  by (cases "createBooking d actor lid check_in check_out")
    (auto simp: createBooking_def perform_create_def Let_def split: option.splits if_splits)

lemma createBooking_invariant:
  assumes "pk_ok d" and "no_double_booking (bookings d)"
  shows "pk_ok (snd (createBooking d actor lid check_in check_out))
       \<and> no_double_booking (bookings (snd (createBooking d actor lid check_in check_out)))"
proof (rule createBooking_cases [of d actor lid check_in check_out])
  fix e assume "createBooking d actor lid check_in check_out = (Inl e, d)"
  then show ?thesis using assms by simp
next
  fix a d1 assume c: "createBooking d actor lid check_in check_out = (Inr a, d1)"
  from createBooking_Inr [OF c] obtain u where
    free: "isAvailable d lid check_in check_out"
    and a: "a = \<lparr>booking_id = next_booking_id d, booking_listing_id = lid, booking_user = u,
                   check_in_date = check_in, check_out_date = check_out, status = Pending\<rparr>"
    and d1: "d1 = d\<lparr>bookings := bookings d @ [a], next_booking_id := Suc (next_booking_id d)\<rparr>"
    by auto
  have "list_all (\<lambda>c. \<not> double_booked c a) (bookings d)"
    using free by (auto simp: isAvailable_iff list_all_iff double_booked_def blocking_def overlaps_def a)
  then have "no_double_booking (bookings d1)"
    using assms(2) by (simp add: d1 no_double_booking_append)
  moreover have "pk_ok d1"
    using assms(1) by (auto simp: pk_ok_def d1 a list_all_iff)
  ultimately show ?thesis by (simp add: c)
qed

lemma step_create:
  "step to_pk d (Create actor lid check_in check_out) = snd (createBooking d actor lid check_in check_out)"
  by (simp add: step_def create_read_def createBooking_def perform_create_def Let_def
      split: option.splits)

lemma step_confirm:
  "step to_pk d (ConfirmReq user query pk) = snd (confirm to_pk d user query pk)"
  by (simp add: step_def confirm_read_def confirm_def Let_def split: option.splits sum.splits)

lemma step_cancel:
  "step to_pk d (CancelReq user query pk) = snd (cancel to_pk d user query pk)"
  by (simp add: step_def cancel_read_def cancel_def Let_def split: option.splits sum.splits)

lemma step_invariant:
  assumes "pk_ok d" and "no_double_booking (bookings d)"
  shows "pk_ok (step to_pk d r) \<and> no_double_booking (bookings (step to_pk d r))"
proof (cases r)
  case (Create actor lid check_in check_out)
  with createBooking_invariant [OF assms] show ?thesis by (simp only: step_create)
next
  case (ConfirmReq user query pk)
  with confirm_invariant [OF assms] show ?thesis by (simp only: step_confirm)
next
  case (CancelReq user query pk)
  with cancel_invariant [OF assms] show ?thesis by (simp only: step_cancel)
qed

lemma run_invariant:
  assumes "pk_ok d" and "no_double_booking (bookings d)"
  shows "pk_ok (run to_pk d rs) \<and> no_double_booking (bookings (run to_pk d rs))"
  using assms unfolding run_def
proof (induction rs arbitrary: d)
  case Nil
  then show ?case by simp
next
  case (Cons r rs)
  from step_invariant [OF Cons.prems, of to_pk r] Cons.IH [of "step to_pk d r"]
  show ?case by simp
qed

text \<open>A serial history is the schedule in which every write follows its read at once.\<close>

lemma exec_alone:
  "foldl (exec_event to_pk) (d, \<lambda>c. None) [Begin c r, Finish c] = (step to_pk d r, \<lambda>c. None)"
  by (cases "begin_request to_pk d r") (simp_all add: step_def)

lemma run_is_schedule:
  "run to_pk d rs = interleaved to_pk d (concat (map (\<lambda>r. [Begin c r, Finish c]) rs))"
proof -
  have "foldl (exec_event to_pk) (d, \<lambda>c. None) (concat (map (\<lambda>r. [Begin c r, Finish c]) rs))
      = (foldl (step to_pk) d rs, \<lambda>c. None)"
  proof (induction rs arbitrary: d)
    case Nil
    show ?case by simp
  next
    case (Cons r rs)
    have "foldl (exec_event to_pk) (d, \<lambda>c. None)
            (concat (map (\<lambda>r. [Begin c r, Finish c]) (r # rs)))
        = foldl (exec_event to_pk)
            (foldl (exec_event to_pk) (d, \<lambda>c. None) [Begin c r, Finish c])
            (concat (map (\<lambda>r. [Begin c r, Finish c]) rs))"
      by simp
    also have "\<dots> = (foldl (step to_pk) (step to_pk d r) rs, \<lambda>c. None)"
      unfolding exec_alone by (rule Cons.IH)
    finally show ?case by simp
  qed
  then show ?thesis by (simp add: run_def interleaved_def)
qed

text \<open>
  C1, amended. The views take no lock and open no transaction, so the read and the
  write of one request can be separated by other requests, and two overlapping pending
  or confirmed bookings of one listing can result; the invariant is one of serial
  histories. From a
  database with a unique primary key and no double booking (the empty bookings table
  is one), every serial history of \<open>createBooking\<close>, \<open>confirm\<close> and \<open>cancel\<close> requests,
  by any users and in any order, each request running to its end before the next
  begins, leads to a database in which no two rows are pending or confirmed bookings
  of the same listing with overlapping half-open intervals.
\<close>

theorem no_double_booking_reachable:
  assumes "pk_ok d" and "no_double_booking (bookings d)"
  shows "\<forall>i j. i < j \<and> j < length (bookings (run to_pk d rs)) \<longrightarrow>
           \<not> (booking_listing_id (bookings (run to_pk d rs) ! i)
                = booking_listing_id (bookings (run to_pk d rs) ! j)
              \<and> blocking (bookings (run to_pk d rs) ! i) \<and> blocking (bookings (run to_pk d rs) ! j)
              \<and> overlaps (bookings (run to_pk d rs) ! i) (bookings (run to_pk d rs) ! j))"
  using run_invariant [OF assms, of to_pk rs]
  by (simp add: no_double_booking_pairs double_booked_def)

theorem no_double_booking_reachable_witness:
  "pk_ok empty_demo \<and> no_double_booking (bookings empty_demo)
   \<and> bookings (run demo_pk empty_demo demo_history) =
       [\<lparr>booking_id = 1, booking_listing_id = 1, booking_user = 7,
          check_in_date = (2024, 6, 1), check_out_date = (2024, 6, 5), status = Confirmed\<rparr>,
        \<lparr>booking_id = 2, booking_listing_id = 1, booking_user = 8,
          check_in_date = (2024, 6, 5), check_out_date = (2024, 6, 10), status = Cancelled\<rparr>,
        \<lparr>booking_id = 3, booking_listing_id = 1, booking_user = 9,
          check_in_date = (2024, 6, 7), check_out_date = (2024, 6, 10), status = Pending\<rparr>]
   \<and> \<not> overlaps (bookings (run demo_pk empty_demo demo_history) ! 0)
                 (bookings (run demo_pk empty_demo demo_history) ! 2)"
proof -
  have p: "pk_ok empty_demo"
    by (simp add: empty_demo_def empty_db_def pk_ok_def)
  have n: "no_double_booking (bookings empty_demo)"
    by (simp add: empty_demo_def empty_db_def)
  have r: "bookings (run demo_pk empty_demo demo_history) =
       [\<lparr>booking_id = 1, booking_listing_id = 1, booking_user = 7,
          check_in_date = (2024, 6, 1), check_out_date = (2024, 6, 5), status = Confirmed\<rparr>,
        \<lparr>booking_id = 2, booking_listing_id = 1, booking_user = 8,
          check_in_date = (2024, 6, 5), check_out_date = (2024, 6, 10), status = Cancelled\<rparr>,
        \<lparr>booking_id = 3, booking_listing_id = 1, booking_user = 9,
          check_in_date = (2024, 6, 7), check_out_date = (2024, 6, 10), status = Pending\<rparr>]"
    by (simp add: run_def demo_history_def empty_demo_def empty_db_def demo_defs booking_view_defs
        step_create step_confirm step_cancel
        createBooking_def perform_create_def isAvailable_def Let_def)
  from no_double_booking_reachable [OF p n, of demo_pk demo_history, rule_format, of 0 2]
  have "\<not> overlaps (bookings (run demo_pk empty_demo demo_history) ! 0)
                   (bookings (run demo_pk empty_demo demo_history) ! 2)"
    by (simp add: r blocking_def)
  with p n r show ?thesis by blast
qed

text \<open>
  Two schedules from the empty bookings table. In the first, two creations for
  overlapping nights of listing 1 both validate before either inserts. In the second,
  a confirm has loaded the pending booking 1 when its owner cancels it and another
  user books the freed nights; the confirm then saves the row it loaded. Each ends
  with two rows of listing 1 that are pending or confirmed and overlap.
\<close>

theorem no_double_booking_counterexample:
  "pk_ok empty_demo \<and> no_double_booking (bookings empty_demo)
   \<and> bookings (interleaved demo_pk empty_demo racing_creations) =
       [\<lparr>booking_id = 1, booking_listing_id = 1, booking_user = 7,
          check_in_date = (2024, 6, 1), check_out_date = (2024, 6, 5), status = Pending\<rparr>,
        \<lparr>booking_id = 2, booking_listing_id = 1, booking_user = 8,
          check_in_date = (2024, 6, 3), check_out_date = (2024, 6, 7), status = Pending\<rparr>]
   \<and> \<not> no_double_booking (bookings (interleaved demo_pk empty_demo racing_creations))
   \<and> bookings (interleaved demo_pk empty_demo stale_confirm) =
       [\<lparr>booking_id = 1, booking_listing_id = 1, booking_user = 7,
          check_in_date = (2024, 6, 1), check_out_date = (2024, 6, 5), status = Confirmed\<rparr>,
        \<lparr>booking_id = 2, booking_listing_id = 1, booking_user = 8,
          check_in_date = (2024, 6, 3), check_out_date = (2024, 6, 7), status = Pending\<rparr>]
   \<and> \<not> no_double_booking (bookings (interleaved demo_pk empty_demo stale_confirm))"
proof -
  have 1: "bookings (interleaved demo_pk empty_demo racing_creations) =
       [\<lparr>booking_id = 1, booking_listing_id = 1, booking_user = 7,
          check_in_date = (2024, 6, 1), check_out_date = (2024, 6, 5), status = Pending\<rparr>,
        \<lparr>booking_id = 2, booking_listing_id = 1, booking_user = 8,
          check_in_date = (2024, 6, 3), check_out_date = (2024, 6, 7), status = Pending\<rparr>]"
    by (simp add: interleaved_def racing_creations_def empty_demo_def empty_db_def demo_defs
        create_read_def perform_create_def isAvailable_def Let_def)
  have 2: "bookings (interleaved demo_pk empty_demo stale_confirm) =
       [\<lparr>booking_id = 1, booking_listing_id = 1, booking_user = 7,
          check_in_date = (2024, 6, 1), check_out_date = (2024, 6, 5), status = Confirmed\<rparr>,
        \<lparr>booking_id = 2, booking_listing_id = 1, booking_user = 8,
          check_in_date = (2024, 6, 3), check_out_date = (2024, 6, 7), status = Pending\<rparr>]"
    by (simp add: interleaved_def stale_confirm_def empty_demo_def empty_db_def demo_defs
        create_read_def confirm_read_def cancel_read_def perform_create_def isAvailable_def
        get_object_def booking_get_queryset_def save_def filter_defs Let_def)
  have p: "pk_ok empty_demo"
    by (simp add: empty_demo_def empty_db_def pk_ok_def)
  have n: "no_double_booking (bookings empty_demo)"
    by (simp add: empty_demo_def empty_db_def)
  have "\<not> no_double_booking (bookings (interleaved demo_pk empty_demo racing_creations))"
    unfolding 1 by (simp add: double_booked_def blocking_def overlaps_def)
  moreover have "\<not> no_double_booking (bookings (interleaved demo_pk empty_demo stale_confirm))"
    unfolding 2 by (simp add: double_booked_def blocking_def overlaps_def)
  ultimately show ?thesis using 1 2 p n by blast
qed


end
